theory Spec2Isabelle
  imports Main "HOL-Library.Word"
begin

unbundle bit_operations_syntax

text \<open>
  A shallow embedding of the core of log4go: the severity levels and the dispatch of
  \<^verbatim>\<open>log4go.go\<close>, the field model and the encoder.  The field model and the encoder are
  embedded from the copies with all thirteen field kinds and the encoder pool
  (\<^verbatim>\<open>src/unnamed/part_001\<close> and the second file of \<^verbatim>\<open>src/unnamed/part_000\<close>);
  \<^verbatim>\<open>src/field.go\<close> and \<^verbatim>\<open>src/json_encoder.go\<close> are earlier copies with three kinds, whose
  \<^verbatim>\<open>safeAddString\<close>, \<^verbatim>\<open>tryAddRuneSelf\<close>, \<^verbatim>\<open>tryAddRuneError\<close> and \<^verbatim>\<open>AppendLeft\<close> are the
  same and whose \<^verbatim>\<open>EncodeJson\<close> writes the same leading keys.  Their \<^verbatim>\<open>EncodeString\<close>
  is another function and is embedded too, as \<open>EncodeString_3kind\<close>.
\<close>

section \<open>Severity levels (log4go.go)\<close>

text \<open>
  \<^verbatim>\<open>type Level int\<close> with the constants \<^verbatim>\<open>FINEST .. CRITICAL\<close> numbered by
  \<^verbatim>\<open>iota\<close>.  Any integer converts to a \<^verbatim>\<open>Level\<close>, so the type is the integers and not
  an eight-valued datatype.  No arithmetic is done on a level, only comparison, so the width of
  Go's \<^verbatim>\<open>int\<close> plays no role.
\<close>

type_synonym Level = int

definition FINEST :: Level where "FINEST = 0"
definition FINE :: Level where "FINE = 1"
definition DEBUG :: Level where "DEBUG = 2"
definition TRACE :: Level where "TRACE = 3"
definition INFO :: Level where "INFO = 4"
definition WARNING :: Level where "WARNING = 5"
definition ERROR :: Level where "ERROR = 6"
definition CRITICAL :: Level where "CRITICAL = 7"

definition levelStrings :: "string list" where
  "levelStrings =
     [''FNST'', ''FINE'', ''DEBG'', ''TRAC'', ''INFO'', ''WARN'', ''EROR'', ''CRIT'']"

text \<open>A run-time panic of the Go program, as a value.\<close>

datatype panic = IndexOutOfRange | TypeAssertion

text \<open>
  \<^verbatim>\<open>func (l Level) String() string\<close>.  The guard is \<^verbatim>\<open>l < 0 || int(l) > len(levelStrings)\<close>;
  the read \<^verbatim>\<open>levelStrings[int(l)]\<close> behind it is bounds-checked by the Go run time and
  panics at an index that is not below the length.
\<close>

definition Level_String :: "Level \<Rightarrow> panic + string" where
  "Level_String l =
     (if l < 0 \<or> l > int (length levelStrings) then Inr ''UNKNOWN''
      else if nat l < length levelStrings then Inr (levelStrings ! nat l)
      else Inl IndexOutOfRange)"

section \<open>Fields (src/unnamed/part_001)\<close>

text \<open>
  \<^verbatim>\<open>type FieldType uint8\<close> with its thirteen \<^verbatim>\<open>iota\<close> constants, as a datatype: a tag
  outside the constants is not modelled.
\<close>

datatype FieldType =
  UnknownType | BoolType | IntType | Int32Type | Uint32Type | Int64Type | Uint64Type
  | Int8Type | Uint8Type | Float64Type | Float32Type | StringType | InterfaceType

text \<open>
  A value of Go's \<^verbatim>\<open>interface{}\<close>: the dynamic type with the value.  Go's \<^verbatim>\<open>int\<close>
  is taken as 64 bits wide.  A floating-point number is its IEEE bit pattern; no arithmetic is
  done on it.  \<open>VOther ty v\<close> stands for a value of any other dynamic type (\<^verbatim>\<open>uint\<close>,
  \<^verbatim>\<open>int16\<close>, a named type, an error, a struct, ...), by the name of its type and a
  description of the value.
\<close>

datatype iface =
  Nil
  | VBool bool
  | VInt "64 word" | VInt8 "8 word" | VUint8 "8 word" | VInt32 "32 word" | VUint32 "32 word"
  | VInt64 "64 word" | VUint64 "64 word"
  | VString string
  | VFloat32 "32 word" | VFloat64 "64 word"
  | VOther string string

record Field =
  Key :: string
  Type :: FieldType
  Integer :: "64 word"
  String :: string
  Interface :: iface

text \<open>The zero value of the struct; a composite literal sets the fields it names.\<close>

definition zeroField :: Field where
  "zeroField = \<lparr>Key = [], Type = UnknownType, Integer = 0, String = [], Interface = Nil\<rparr>"

text \<open>
  The constructors.  \<^verbatim>\<open>int64(value)\<close> sign-extends a signed operand (\<open>scast\<close>),
  zero-extends an unsigned one (\<open>ucast\<close>), and reinterprets the 64 bits of a \<^verbatim>\<open>uint64\<close>.
\<close>

definition Bool :: "string \<Rightarrow> bool \<Rightarrow> Field" where
  "Bool key v = zeroField\<lparr>Key := key, Type := BoolType, Interface := VBool v\<rparr>"

definition Uint32 :: "string \<Rightarrow> 32 word \<Rightarrow> Field" where
  "Uint32 key v = zeroField\<lparr>Key := key, Type := Uint32Type, Integer := ucast v\<rparr>"

definition Int32 :: "string \<Rightarrow> 32 word \<Rightarrow> Field" where
  "Int32 key v = zeroField\<lparr>Key := key, Type := Int32Type, Integer := scast v\<rparr>"

definition Uint8 :: "string \<Rightarrow> 8 word \<Rightarrow> Field" where
  "Uint8 key v = zeroField\<lparr>Key := key, Type := Uint8Type, Integer := ucast v\<rparr>"

definition Int8 :: "string \<Rightarrow> 8 word \<Rightarrow> Field" where
  "Int8 key v = zeroField\<lparr>Key := key, Type := Int8Type, Integer := scast v\<rparr>"

definition Uint64 :: "string \<Rightarrow> 64 word \<Rightarrow> Field" where
  "Uint64 key v = zeroField\<lparr>Key := key, Type := Uint64Type, Integer := v\<rparr>"

definition Int64 :: "string \<Rightarrow> 64 word \<Rightarrow> Field" where
  "Int64 key v = zeroField\<lparr>Key := key, Type := Int64Type, Integer := v\<rparr>"

text \<open>\<^verbatim>\<open>func Int(key string, value int) Field\<close>; \<open>Int\<close> is taken in HOL.\<close>

definition Int_Field :: "string \<Rightarrow> 64 word \<Rightarrow> Field" where
  "Int_Field key v = zeroField\<lparr>Key := key, Type := IntType, Integer := v\<rparr>"

definition Float32 :: "string \<Rightarrow> 32 word \<Rightarrow> Field" where
  "Float32 key v = zeroField\<lparr>Key := key, Type := Float32Type, Interface := VFloat32 v\<rparr>"

definition Float64 :: "string \<Rightarrow> 64 word \<Rightarrow> Field" where
  "Float64 key v = zeroField\<lparr>Key := key, Type := Float64Type, Interface := VFloat64 v\<rparr>"

text \<open>\<^verbatim>\<open>func String(key string, value string) Field\<close>; the name \<open>String\<close> is the field's.\<close>

definition String_Field :: "string \<Rightarrow> string \<Rightarrow> Field" where
  "String_Field key v = zeroField\<lparr>Key := key, Type := StringType, String := v\<rparr>"

text \<open>\<^verbatim>\<open>func Any(key string, value interface{}) Field\<close>: a switch on the dynamic type.\<close>

fun Any :: "string \<Rightarrow> iface \<Rightarrow> Field" where
  "Any key (VInt v) = zeroField\<lparr>Key := key, Integer := v, Type := IntType\<rparr>"
| "Any key (VUint8 v) = zeroField\<lparr>Key := key, Integer := ucast v, Type := IntType\<rparr>"
| "Any key (VInt8 v) = zeroField\<lparr>Key := key, Integer := scast v, Type := IntType\<rparr>"
| "Any key (VUint32 v) = zeroField\<lparr>Key := key, Integer := ucast v, Type := IntType\<rparr>"
| "Any key (VInt32 v) = zeroField\<lparr>Key := key, Integer := scast v, Type := IntType\<rparr>"
| "Any key (VUint64 v) = zeroField\<lparr>Key := key, Integer := v, Type := IntType\<rparr>"
| "Any key (VInt64 v) = zeroField\<lparr>Key := key, Integer := v, Type := IntType\<rparr>"
| "Any key (VString v) = zeroField\<lparr>Key := key, String := v, Type := StringType\<rparr>"
| "Any key v = zeroField\<lparr>Key := key, Type := InterfaceType, Interface := v\<rparr>"

section \<open>Log records (log4go.go)\<close>

text \<open>
  \<^verbatim>\<open>time.Time\<close>, by what its accessors \<^verbatim>\<open>Year()\<close>, \<^verbatim>\<open>Month()\<close>, ...,
  \<^verbatim>\<open>Nanosecond()\<close> return.
\<close>

record Time =
  Year :: int
  Month :: int
  Day :: int
  Hour :: int
  Minute :: int
  Second :: int
  Nanosecond :: int

record LogRecord =
  Level :: Level
  Created :: Time
  Source :: string
  Message :: string
  Json :: bool
  Fields :: "Field list"

section \<open>Decimal numbers (strconv and fmt of the Go standard library)\<close>

definition digit :: "nat \<Rightarrow> char" where
  "digit n = ''0123456789'' ! n"

fun FormatUint :: "nat \<Rightarrow> string" where
  "FormatUint n = (if n < 10 then [digit n] else FormatUint (n div 10) @ [digit (n mod 10)])"

declare FormatUint.simps [simp del]

definition FormatInt :: "int \<Rightarrow> string" where
  "FormatInt i = (if i < 0 then CHR ''-'' # FormatUint (nat (- i)) else FormatUint (nat i))"

definition FormatBool :: "bool \<Rightarrow> string" where
  "FormatBool b = (if b then ''true'' else ''false'')"

text \<open>
  The verb \<^verbatim>\<open>%0wd\<close> of fmt: the digits padded with zeros to the width, the sign of a
  negative number in front and counted in the width.
\<close>

definition fmt_0d :: "nat \<Rightarrow> int \<Rightarrow> string" where
  "fmt_0d w i =
     (if i < 0
      then CHR ''-'' # replicate (w - 1 - length (FormatUint (nat (- i)))) (CHR ''0'')
             @ FormatUint (nat (- i))
      else replicate (w - length (FormatUint (nat i))) (CHR ''0'') @ FormatUint (nat i))"

text \<open>Go's integer division truncates towards zero.\<close>

definition quo :: "int \<Rightarrow> int \<Rightarrow> int" where
  "quo a b = sgn a * sgn b * (\<bar>a\<bar> div \<bar>b\<bar>)"

text \<open>
  What the Go library does and this development does not model, as parameters: the decimal
  form of a floating-point number (\<^verbatim>\<open>strconv.AppendFloat\<close> with format \<^verbatim>\<open>'f'\<close>,
  precision -1), the JSON text of a fallback value, the \<^verbatim>\<open>%v\<close> form of a value that is
  no integer, string or boolean, what fmt prints for an operand that does not suit its verb
  (\<^verbatim>\<open>%!d(string=x)\<close>), and what \<^verbatim>\<open>Sprintf\<close> prints from a directive on that is not
  one of \<^verbatim>\<open>%d %s %t %v\<close> with an operand, or for operands left over at the end of the
  format.
\<close>

record golib =
  AppendFloat32 :: "32 word \<Rightarrow> string"
  AppendFloat64 :: "64 word \<Rightarrow> string"
  any_json :: "iface \<Rightarrow> string"
  value_v :: "iface \<Rightarrow> string"
  bad_verb :: "char \<Rightarrow> iface \<Rightarrow> string"
  other_directive :: "iface list \<Rightarrow> string \<Rightarrow> iface list \<Rightarrow> string"

fun fmt_d :: "iface \<Rightarrow> string option" where
  "fmt_d (VInt v) = Some (FormatInt (sint v))"
| "fmt_d (VInt8 v) = Some (FormatInt (sint v))"
| "fmt_d (VInt32 v) = Some (FormatInt (sint v))"
| "fmt_d (VInt64 v) = Some (FormatInt (sint v))"
| "fmt_d (VUint8 v) = Some (FormatUint (unat v))"
| "fmt_d (VUint32 v) = Some (FormatUint (unat v))"
| "fmt_d (VUint64 v) = Some (FormatUint (unat v))"
| "fmt_d _ = None"

fun fmt_s :: "iface \<Rightarrow> string option" where
  "fmt_s (VString s) = Some s"
| "fmt_s _ = None"

fun fmt_t :: "iface \<Rightarrow> string option" where
  "fmt_t (VBool b) = Some (FormatBool b)"
| "fmt_t _ = None"

definition fmt_v :: "golib \<Rightarrow> iface \<Rightarrow> string" where
  "fmt_v L a =
     (case fmt_d a of Some s \<Rightarrow> s
      | None \<Rightarrow> (case fmt_s a of Some s \<Rightarrow> s
         | None \<Rightarrow> (case fmt_t a of Some s \<Rightarrow> s | None \<Rightarrow> value_v L a)))"

definition printArg :: "golib \<Rightarrow> char \<Rightarrow> iface \<Rightarrow> string" where
  "printArg L verb a =
     (if verb = CHR ''v'' then fmt_v L a
      else case (if verb = CHR ''d'' then fmt_d a
                 else if verb = CHR ''s'' then fmt_s a
                 else fmt_t a) of
             Some s \<Rightarrow> s
           | None \<Rightarrow> bad_verb L verb a)"

text \<open>
  \<^verbatim>\<open>fmt.Sprintf(format, args...)\<close> on the directives \<^verbatim>\<open>%d %s %t %v\<close>: text is copied,
  a directive prints the next operand.  \<open>doPrintf\<close> is the scan of the format, with the
  operands not yet printed; from the first thing it does not model the output is the
  parameter's, which is given all the operands of the call, what is left of the format and
  the operands not yet printed.
\<close>

fun doPrintf :: "golib \<Rightarrow> iface list \<Rightarrow> string \<Rightarrow> iface list \<Rightarrow> string" where
  "doPrintf L a [] as = (if as = [] then [] else other_directive L a [] as)"
| "doPrintf L a (c # fs) as =
     (if c \<noteq> CHR ''%'' then c # doPrintf L a fs as
      else
        (case fs of
           [] \<Rightarrow> other_directive L a (c # fs) as
         | v # fs' \<Rightarrow>
             if v = CHR ''d'' \<or> v = CHR ''s'' \<or> v = CHR ''t'' \<or> v = CHR ''v'' then
               (case as of
                  [] \<Rightarrow> other_directive L a (c # fs) as
                | x # as' \<Rightarrow> printArg L v x @ doPrintf L a fs' as')
             else other_directive L a (c # fs) as))"

definition Sprintf :: "golib \<Rightarrow> string \<Rightarrow> iface list \<Rightarrow> string" where
  "Sprintf L format a = doPrintf L a format a"

section \<open>The encoder (src/unnamed/part_000)\<close>

text \<open>
  \<^verbatim>\<open>type jsonEncoder struct { buf []byte; left bool }\<close>.  A method with a pointer
  receiver takes the encoder and returns it updated.  A byte is a \<open>char\<close>.  No line of
  the program sets \<^verbatim>\<open>left\<close> to true: it is false in the encoder \<^verbatim>\<open>newJsonEncoder\<close>
  makes and stays so.
\<close>

record jsonEncoder =
  buf :: string
  left :: bool

definition Hex :: string where \<open>Hex = ''0123456789ABCDEF''\<close>

definition newJsonEncoder :: jsonEncoder where
  "newJsonEncoder = \<lparr>buf = [], left = False\<rparr>"

definition appendByte :: "char \<Rightarrow> jsonEncoder \<Rightarrow> jsonEncoder" where
  "appendByte b enc = enc\<lparr>buf := buf enc @ [b]\<rparr>"

definition appendString :: "string \<Rightarrow> jsonEncoder \<Rightarrow> jsonEncoder" where
  "appendString str enc = enc\<lparr>buf := buf enc @ str\<rparr>"

definition RuneSelf :: nat where "RuneSelf = 0x80"
definition RuneError :: nat where "RuneError = 0xFFFD"

definition tryAddRuneSelf :: "char \<Rightarrow> jsonEncoder \<Rightarrow> bool \<times> jsonEncoder" where
  "tryAddRuneSelf b enc =
     (if of_char b \<ge> RuneSelf then (False, enc)
      else if (0x20 :: nat) \<le> of_char b \<and> b \<noteq> CHR 0x5C \<and> b \<noteq> CHR 0x22
        then (True, appendByte b enc)
      else if b = CHR 0x5C \<or> b = CHR 0x22
        then (True, appendByte b (appendByte (CHR 0x5C) enc))
      else if b = CHR 0x0A
        then (True, appendByte (CHR ''n'') (appendByte (CHR 0x5C) enc))
      else if b = CHR 0x0D
        then (True, appendByte (CHR ''r'') (appendByte (CHR 0x5C) enc))
      else if b = CHR 0x09
        then (True, appendByte (CHR ''t'') (appendByte (CHR 0x5C) enc))
      else (True,
        appendByte (Hex ! ((of_char b :: nat) AND 0xF))
          (appendByte (Hex ! (drop_bit 4 (of_char b :: nat)))
            (appendString (CHR 0x5C # ''u00'') enc))))"

definition tryAddRuneError :: "nat \<Rightarrow> nat \<Rightarrow> jsonEncoder \<Rightarrow> bool \<times> jsonEncoder" where
  "tryAddRuneError r rsize enc =
     (if r = RuneError \<and> rsize = 1 then (True, appendString (CHR 0x5C # ''ufffd'') enc)
      else (False, enc))"

text \<open>
  \<^verbatim>\<open>utf8.DecodeRuneInString\<close> of the Go standard library, with its table \<^verbatim>\<open>first\<close>
  (by ranges of the byte) and its \<^verbatim>\<open>acceptRanges\<close>; a rune and a size are natural numbers.
  For a first byte whose table entry is at least \<^verbatim>\<open>as = 0xF0\<close> the library returns the
  byte itself (entry \<^verbatim>\<open>as\<close>, ASCII) or \<^verbatim>\<open>RuneError\<close> (entry \<^verbatim>\<open>xx\<close>), with size 1.
\<close>

definition locb :: nat where "locb = 0x80"
definition hicb :: nat where "hicb = 0xBF"
definition maskx :: nat where "maskx = 0x3F"
definition mask2 :: nat where "mask2 = 0x1F"
definition mask3 :: nat where "mask3 = 0x0F"
definition mask4 :: nat where "mask4 = 0x07"

definition first :: "nat \<Rightarrow> nat" where
  "first b =
     (if b < 0x80 then 0xF0
      else if b < 0xC2 then 0xF1
      else if b < 0xE0 then 0x02
      else if b = 0xE0 then 0x13
      else if b < 0xED then 0x03
      else if b = 0xED then 0x23
      else if b < 0xF0 then 0x03
      else if b = 0xF0 then 0x34
      else if b < 0xF4 then 0x04
      else if b = 0xF4 then 0x44
      else 0xF1)"

definition acceptRanges :: "(nat \<times> nat) list" where
  "acceptRanges = [(locb, hicb), (0xA0, hicb), (locb, 0x9F), (0x90, hicb), (locb, 0x8F)]"

definition DecodeRuneInString :: "string \<Rightarrow> nat \<times> nat" where
  "DecodeRuneInString s =
     (if length s < 1 then (RuneError, 0)
      else
        let s0 = (of_char (s ! 0) :: nat); x = first s0 in
        if x \<ge> 0xF0 then ((if x = 0xF0 then s0 else RuneError), 1)
        else
          let sz = x AND 7; accept = acceptRanges ! (drop_bit 4 x) in
          if length s < sz then (RuneError, 1)
          else
            let s1 = (of_char (s ! 1) :: nat) in
            if s1 < fst accept \<or> snd accept < s1 then (RuneError, 1)
            else if sz \<le> 2 then (push_bit 6 (s0 AND mask2) OR (s1 AND maskx), 2)
            else
              let s2 = (of_char (s ! 2) :: nat) in
              if s2 < locb \<or> hicb < s2 then (RuneError, 1)
              else if sz \<le> 3
                then (push_bit 12 (s0 AND mask3) OR push_bit 6 (s1 AND maskx) OR (s2 AND maskx), 3)
              else
                let s3 = (of_char (s ! 3) :: nat) in
                if s3 < locb \<or> hicb < s3 then (RuneError, 1)
                else (push_bit 18 (s0 AND mask4) OR push_bit 12 (s1 AND maskx)
                        OR push_bit 6 (s2 AND maskx) OR (s3 AND maskx), 4))"

text \<open>
  \<^verbatim>\<open>safeAddString\<close>: the loop \<^verbatim>\<open>for i := 0; i < len(s); { ... }\<close> from index \<open>i\<close> on;
  \<^verbatim>\<open>s[i:]\<close> is \<open>drop i s\<close> and \<^verbatim>\<open>s[i:i+size]\<close> is \<open>take size (drop i s)\<close> (the
  decoder returns no size beyond the bytes there are, so the slice is in range).  The loop
  ends because the decoder returns a size of at least 1 on a string that is not empty.
\<close>

function safeAddString_from :: "nat \<Rightarrow> string \<Rightarrow> jsonEncoder \<Rightarrow> jsonEncoder" where
  "safeAddString_from i s enc =
     (if i < length s then
        (case tryAddRuneSelf (s ! i) enc of
           (True, enc1) \<Rightarrow> safeAddString_from (i + 1) s enc1
         | (False, enc1) \<Rightarrow>
             (case DecodeRuneInString (drop i s) of (r, rsize) \<Rightarrow>
                (case tryAddRuneError r rsize enc1 of
                   (True, enc2) \<Rightarrow> safeAddString_from (i + 1) s enc2
                 | (False, enc2) \<Rightarrow>
                     safeAddString_from (i + rsize) s
                            (enc2\<lparr>buf := buf enc2 @ take rsize (drop i s)\<rparr>))))
      else enc)"
  by pat_completeness auto
termination
proof (relation "measure (\<lambda>(i, s, enc). length s - i)")
  fix i :: nat and s :: string and r rsize :: nat
  assume "i < length s" and "(r, rsize) = DecodeRuneInString (drop i s)"
  then have "0 < rsize"
    by (auto simp: DecodeRuneInString_def Let_def split: if_splits)
  with \<open>i < length s\<close>
  show "((i + rsize, s, enc'), (i, s, enc)) \<in> measure (\<lambda>(i, s, enc). length s - i)"
    for enc enc' :: jsonEncoder
    by simp
qed auto

declare safeAddString_from.simps [simp del]

definition safeAddString :: "string \<Rightarrow> jsonEncoder \<Rightarrow> jsonEncoder" where
  "safeAddString s enc = safeAddString_from 0 s enc"

text \<open>
  The typed add operations.  Each begins with \<^verbatim>\<open>enc.AppendLeft(); enc.safeAddString(key);
  enc.appendString(`": `)\<close>, which is \<open>add_key\<close>; \<^verbatim>\<open>strconv.AppendInt\<close>,
  \<^verbatim>\<open>AppendUint\<close> and \<^verbatim>\<open>AppendBool\<close> append the decimal digits and \<open>true\<close> or \<open>false\<close>.
\<close>

definition AppendLeft :: "jsonEncoder \<Rightarrow> jsonEncoder" where
  \<open>AppendLeft enc =
     (if left enc = True then (appendString ''"'' enc)\<lparr>left := False\<rparr>
      else appendString '',"'' enc)\<close>

definition add_key :: "string \<Rightarrow> jsonEncoder \<Rightarrow> jsonEncoder" where
  \<open>add_key key enc = appendString ''": '' (safeAddString key (AppendLeft enc))\<close>

definition AddBool :: "string \<Rightarrow> bool \<Rightarrow> jsonEncoder \<Rightarrow> jsonEncoder" where
  "AddBool key v enc = (let e = add_key key enc in e\<lparr>buf := buf e @ FormatBool v\<rparr>)"

definition AddInt :: "string \<Rightarrow> 64 word \<Rightarrow> jsonEncoder \<Rightarrow> jsonEncoder" where
  "AddInt key v enc = (let e = add_key key enc in e\<lparr>buf := buf e @ FormatInt (sint v)\<rparr>)"

definition AddInt32 :: "string \<Rightarrow> 32 word \<Rightarrow> jsonEncoder \<Rightarrow> jsonEncoder" where
  "AddInt32 key v enc =
     (let e = add_key key enc in e\<lparr>buf := buf e @ FormatInt (sint (scast v :: 64 word))\<rparr>)"

definition AddUint32 :: "string \<Rightarrow> 32 word \<Rightarrow> jsonEncoder \<Rightarrow> jsonEncoder" where
  "AddUint32 key v enc =
     (let e = add_key key enc in e\<lparr>buf := buf e @ FormatUint (unat (ucast v :: 64 word))\<rparr>)"

definition AddInt64 :: "string \<Rightarrow> 64 word \<Rightarrow> jsonEncoder \<Rightarrow> jsonEncoder" where
  "AddInt64 key v enc = (let e = add_key key enc in e\<lparr>buf := buf e @ FormatInt (sint v)\<rparr>)"

definition AddUint64 :: "string \<Rightarrow> 64 word \<Rightarrow> jsonEncoder \<Rightarrow> jsonEncoder" where
  "AddUint64 key v enc = (let e = add_key key enc in e\<lparr>buf := buf e @ FormatUint (unat v)\<rparr>)"

definition AddInt8 :: "string \<Rightarrow> 8 word \<Rightarrow> jsonEncoder \<Rightarrow> jsonEncoder" where
  "AddInt8 key v enc =
     (let e = add_key key enc in e\<lparr>buf := buf e @ FormatInt (sint (scast v :: 64 word))\<rparr>)"

text \<open>
  \<^verbatim>\<open>func (enc *jsonEncoder) AddUint8(key string, value int8)\<close>: the parameter is an
  \<^verbatim>\<open>int8\<close>, and \<^verbatim>\<open>uint64(value)\<close> sign-extends it.
\<close>

definition AddUint8 :: "string \<Rightarrow> 8 word \<Rightarrow> jsonEncoder \<Rightarrow> jsonEncoder" where
  "AddUint8 key v enc =
     (let e = add_key key enc in e\<lparr>buf := buf e @ FormatUint (unat (scast v :: 64 word))\<rparr>)"

definition AddFloat32 :: "golib \<Rightarrow> string \<Rightarrow> 32 word \<Rightarrow> jsonEncoder \<Rightarrow> jsonEncoder" where
  "AddFloat32 L key v enc = (let e = add_key key enc in e\<lparr>buf := buf e @ AppendFloat32 L v\<rparr>)"

definition AddFloat64 :: "golib \<Rightarrow> string \<Rightarrow> 64 word \<Rightarrow> jsonEncoder \<Rightarrow> jsonEncoder" where
  "AddFloat64 L key v enc = (let e = add_key key enc in e\<lparr>buf := buf e @ AppendFloat64 L v\<rparr>)"

definition AddString :: "string \<Rightarrow> string \<Rightarrow> jsonEncoder \<Rightarrow> jsonEncoder" where
  \<open>AddString key v enc =
     appendByte (CHR 0x22)
       (safeAddString v (appendString ''": "'' (safeAddString key (AppendLeft enc))))\<close>

text \<open>
  Modelled from the spec: \<^verbatim>\<open>AddInterface\<close>, the add operation of the encoder that
  \<^verbatim>\<open>Field.AddTo\<close> calls for the fallback kind, is in none of the source files.  The spec
  has JSON mode emit one key/value pair for every field; the pair is laid out the way every
  other add operation lays it out, and the text of the value is the parameter \<open>any_json\<close>.
\<close>

definition AddInterface :: "golib \<Rightarrow> string \<Rightarrow> iface \<Rightarrow> jsonEncoder \<Rightarrow> jsonEncoder" where
  "AddInterface L key v enc = (let e = add_key key enc in e\<lparr>buf := buf e @ any_json L v\<rparr>)"

text \<open>
  \<^verbatim>\<open>func (f Field) AddTo(enc *jsonEncoder)\<close>.  A type assertion \<^verbatim>\<open>f.Interface.(bool)\<close>
  panics when the dynamic type is another one.  The conversions \<^verbatim>\<open>int32(f.Integer)\<close>,
  \<^verbatim>\<open>int8(f.Integer)\<close>, \<^verbatim>\<open>uint32(f.Integer)\<close> keep the low bits (\<open>ucast\<close>).
\<close>

definition AddTo :: "golib \<Rightarrow> Field \<Rightarrow> jsonEncoder \<Rightarrow> panic + jsonEncoder" where
  "AddTo L f enc =
     (case Type f of
        BoolType \<Rightarrow>
          (case Interface f of VBool b \<Rightarrow> Inr (AddBool (Key f) b enc) | _ \<Rightarrow> Inl TypeAssertion)
      | IntType \<Rightarrow> Inr (AddInt (Key f) (Integer f) enc)
      | Int32Type \<Rightarrow> Inr (AddInt32 (Key f) (ucast (Integer f)) enc)
      | Uint32Type \<Rightarrow> Inr (AddUint32 (Key f) (ucast (Integer f)) enc)
      | Int64Type \<Rightarrow> Inr (AddInt64 (Key f) (Integer f) enc)
      | Uint64Type \<Rightarrow> Inr (AddUint64 (Key f) (Integer f) enc)
      | Int8Type \<Rightarrow> Inr (AddInt8 (Key f) (ucast (Integer f)) enc)
      | Uint8Type \<Rightarrow> Inr (AddUint8 (Key f) (ucast (Integer f)) enc)
      | Float32Type \<Rightarrow>
          (case Interface f of
             VFloat32 v \<Rightarrow> Inr (AddFloat32 L (Key f) v enc) | _ \<Rightarrow> Inl TypeAssertion)
      | Float64Type \<Rightarrow>
          (case Interface f of
             VFloat64 v \<Rightarrow> Inr (AddFloat64 L (Key f) v enc) | _ \<Rightarrow> Inl TypeAssertion)
      | StringType \<Rightarrow> Inr (AddString (Key f) (String f) enc)
      | InterfaceType \<Rightarrow> Inr (AddInterface L (Key f) (Interface f) enc)
      | UnknownType \<Rightarrow> Inr enc)"

text \<open>
  \<^verbatim>\<open>EncodeJson\<close>.  The time is printed by
  \<^verbatim>\<open>"\"%04d-%02d-%02d %02d:%02d:%02d.%05d\""\<close>, the last operand being
  \<^verbatim>\<open>Nanosecond()/10000\<close>.
\<close>

definition fmt_time :: "Time \<Rightarrow> string" where
  \<open>fmt_time t =
     ''"'' @ fmt_0d 4 (Year t) @ ''-'' @ fmt_0d 2 (Month t) @ ''-'' @ fmt_0d 2 (Day t)
       @ '' '' @ fmt_0d 2 (Hour t) @ '':'' @ fmt_0d 2 (Minute t) @ '':'' @ fmt_0d 2 (Second t)
       @ ''.'' @ fmt_0d 5 (quo (Nanosecond t) 10000) @ ''"''\<close>

text \<open>The loop \<^verbatim>\<open>for _, f := range record.Fields\<close> of \<^verbatim>\<open>EncodeJson\<close>.\<close>

fun EncodeJson_fields :: "golib \<Rightarrow> Field list \<Rightarrow> jsonEncoder \<Rightarrow> panic + jsonEncoder" where
  "EncodeJson_fields L [] enc = Inr enc"
| "EncodeJson_fields L (f # fs) enc =
     (if Type f = UnknownType then EncodeJson_fields L fs enc
      else case AddTo L f enc of
             Inl p \<Rightarrow> Inl p
           | Inr enc' \<Rightarrow> EncodeJson_fields L fs enc')"

text \<open>The result is the string returned with the encoder as the call leaves it.\<close>

definition EncodeJson :: "golib \<Rightarrow> LogRecord \<Rightarrow> jsonEncoder \<Rightarrow> panic + string \<times> jsonEncoder" where
  \<open>EncodeJson L record enc =
     (let enc = appendByte (CHR ''{'') enc;
          enc = appendString ''"time":'' enc;
          enc = appendString (fmt_time (Created record)) enc;
          enc = appendString '',"message":'' enc;
          enc = appendString (''"'' @ Message record @ ''"'') enc;
          enc = appendString '',"level":'' enc
      in case Level_String (LogRecord.Level record) of
           Inl p \<Rightarrow> Inl p
         | Inr lvl \<Rightarrow>
             (let enc = appendString (''"'' @ lvl @ ''"'') enc;
                  enc = appendString '',"file":'' enc;
                  enc = appendString (''"'' @ Source record @ ''"'') enc
              in case EncodeJson_fields L (Fields record) enc of
                   Inl p \<Rightarrow> Inl p
                 | Inr enc \<Rightarrow>
                     (let enc = appendByte (CHR ''}'') enc;
                          enc = appendByte (CHR 0x0A) enc
                      in Inr (buf enc, enc))))\<close>

text \<open>
  \<^verbatim>\<open>EncodeString\<close>.  Its loop builds the format in the buffer and collects the operands;
  \<^verbatim>\<open>f.Integer\<close> is an \<^verbatim>\<open>int64\<close> operand, \<^verbatim>\<open>f.String\<close> a string operand.
\<close>

fun EncodeString_fields ::
  "Field list \<Rightarrow> jsonEncoder \<times> iface list \<Rightarrow> jsonEncoder \<times> iface list" where
  "EncodeString_fields [] (enc, args) = (enc, args)"
| "EncodeString_fields (f # fs) (enc, args) =
     (if Type f = UnknownType then EncodeString_fields fs (enc, args)
      else
        let enc = appendString (Key f @ '':'') enc;
            (enc, args) =
              (if Type f \<in> {Int32Type, Uint32Type, Int8Type, Uint8Type, Int64Type, Uint64Type, IntType}
                 then (appendString ''%d'' enc, args @ [VInt64 (Integer f)])
               else if Type f = StringType
                 then (appendString ''%s'' enc, args @ [VString (String f)])
               else if Type f = BoolType
                 then (appendString ''%t'' enc, args @ [Interface f])
               else (appendString ''%v'' enc, args @ [Interface f]));
            enc = appendByte (CHR '' '') enc
        in EncodeString_fields fs (enc, args))"

text \<open>
  The loop above and the function below are \<^verbatim>\<open>EncodeString\<close> of
  \<^verbatim>\<open>src/unnamed/part_000\<close> (lines 271 to 308), the copy with thirteen kinds.
\<close>

definition EncodeString :: "golib \<Rightarrow> LogRecord \<Rightarrow> jsonEncoder \<Rightarrow> string \<times> jsonEncoder" where
  "EncodeString L record enc =
     (if length (Fields record) \<le> 0 then (Message record, enc)
      else
        let enc = appendString (Message record) enc;
            enc = appendByte (CHR '' '') enc;
            (enc, args) = EncodeString_fields (Fields record) (enc, [])
        in (Sprintf L (buf enc) args, enc))"

text \<open>
  \<^verbatim>\<open>EncodeString\<close> of the earlier copy, \<^verbatim>\<open>src/json_encoder.go\<close> (lines 42 to 66).  It
  appends no space after the message, has no test for the unknown kind, and its switch has
  the cases \<^verbatim>\<open>Int32Type\<close> and \<^verbatim>\<open>StringType\<close> and a default.  The field type of that copy
  (\<^verbatim>\<open>src/field.go\<close>) has the four kinds \<^verbatim>\<open>UnknownType\<close>, \<^verbatim>\<open>BoolType\<close>, \<^verbatim>\<open>Int32Type\<close> and
  \<^verbatim>\<open>StringType\<close>; \<open>kind_3kind\<close> says that a field is of one of them.
\<close>

definition kind_3kind :: "Field \<Rightarrow> bool" where
  "kind_3kind f = (Type f \<in> {UnknownType, BoolType, Int32Type, StringType})"

fun EncodeString_3kind_fields ::
  "Field list \<Rightarrow> jsonEncoder \<times> iface list \<Rightarrow> jsonEncoder \<times> iface list" where
  "EncodeString_3kind_fields [] (enc, args) = (enc, args)"
| "EncodeString_3kind_fields (f # fs) (enc, args) =
     (let enc = appendString (Key f @ '':'') enc;
          (enc, args) =
            (if Type f = Int32Type
               then (appendString ''%d'' enc, args @ [VInt64 (Integer f)])
             else if Type f = StringType
               then (appendString ''%s'' enc, args @ [VString (String f)])
             else (appendString ''%v'' enc, args @ [Interface f]));
          enc = appendByte (CHR '' '') enc
      in EncodeString_3kind_fields fs (enc, args))"

definition EncodeString_3kind ::
  "golib \<Rightarrow> LogRecord \<Rightarrow> jsonEncoder \<Rightarrow> string \<times> jsonEncoder" where
  "EncodeString_3kind L record enc =
     (if length (Fields record) \<le> 0 then (Message record, enc)
      else
        let enc = appendString (Message record) enc;
            (enc, args) = EncodeString_3kind_fields (Fields record) (enc, [])
        in (Sprintf L (buf enc) args, enc))"

section \<open>The logger and its dispatch (log4go.go)\<close>

text \<open>
  \<^verbatim>\<open>type Filter struct { Level Level; LogWriter }\<close>.  A writer is a value of a type
  \<open>'w\<close>; what a writer does with a record is outside the core.
\<close>

record 'w Filter =
  Level :: Level
  LogWriter :: 'w

text \<open>\<^verbatim>\<open>type Logger map[string]*Filter\<close>\<close>

type_synonym 'w Logger = "string \<rightharpoonup> 'w Filter"

definition AddFilter :: "string \<Rightarrow> Level \<Rightarrow> 'w \<Rightarrow> 'w Logger \<Rightarrow> 'w Logger" where
  "AddFilter name lvl writer log = log(name \<mapsto> \<lparr>Filter.Level = lvl, LogWriter = writer\<rparr>)"

text \<open>
  What a call does to the world outside the logger, in the order it does it: a call of
  \<^verbatim>\<open>fmt.Sprintf\<close> with its format and operands, the call-site resolution
  \<^verbatim>\<open>runtime.Caller(2)\<close>, a call of the caller's closure, and a call of a writer's
  \<^verbatim>\<open>LogWrite\<close> with the address of a record.  The heap holds the records allocated by
  \<^verbatim>\<open>&LogRecord{...}\<close>; an address is an index into it.
\<close>

datatype 'w effect =
  Sprintf_call string "iface list"
  | Caller_call
  | Closure_call
  | LogWrite 'w nat

record 'w world =
  heap :: "LogRecord list"
  effects :: "'w effect list"

definition emit :: "'w effect \<Rightarrow> 'w world \<Rightarrow> 'w world" where
  "emit e w = w\<lparr>effects := effects w @ [e]\<rparr>"

definition new_record :: "LogRecord \<Rightarrow> 'w world \<Rightarrow> nat \<times> 'w world" where
  "new_record r w = (length (heap w), w\<lparr>heap := heap w @ [r]\<rparr>)"

definition sprintf :: "golib \<Rightarrow> string \<Rightarrow> iface list \<Rightarrow> 'w world \<Rightarrow> string \<times> 'w world" where
  "sprintf L format args w = (Sprintf L format args, emit (Sprintf_call format args) w)"

text \<open>
  What one call reads from its surroundings.  A \<^verbatim>\<open>range\<close> over a Go map visits every
  entry once, in an order the language leaves open and that may differ from one loop to the
  next: \<open>skip_order\<close> is the order of the keys in the first loop of the call, \<open>dispatch_order\<close>
  in the second.  \<open>caller\<close> is the file and line \<^verbatim>\<open>runtime.Caller(2)\<close> returns, \<open>None\<close>
  when its \<^verbatim>\<open>ok\<close> is false; \<open>now\<close> is what \<^verbatim>\<open>time.Now()\<close> returns.
\<close>

record site =
  skip_order :: "string list"
  dispatch_order :: "string list"
  caller :: "(string \<times> 64 word) option"
  now :: Time

fun range_values :: "'w Logger \<Rightarrow> string list \<Rightarrow> 'w Filter list" where
  "range_values log [] = []"
| "range_values log (k # ks) =
     (case log k of None \<Rightarrow> range_values log ks | Some filt \<Rightarrow> filt # range_values log ks)"

definition range_order :: "'w Logger \<Rightarrow> string list \<Rightarrow> bool" where
  "range_order log ks = (distinct ks \<and> set ks = dom log)"

text \<open>The first loop: \<^verbatim>\<open>skip := true; for ... { if lvl >= filt.Level { skip = false; break } }\<close>.\<close>

fun skip_loop :: "Level \<Rightarrow> 'w Filter list \<Rightarrow> bool" where
  "skip_loop lvl [] = True"
| "skip_loop lvl (filt # fs) = (if lvl \<ge> Filter.Level filt then False else skip_loop lvl fs)"

text \<open>The second loop, with one record for all writers.\<close>

fun dispatch :: "Level \<Rightarrow> nat \<Rightarrow> 'w Filter list \<Rightarrow> 'w world \<Rightarrow> 'w world" where
  "dispatch lvl rec [] w = w"
| "dispatch lvl rec (filt # fs) w =
     (if lvl < Filter.Level filt then dispatch lvl rec fs w
      else dispatch lvl rec fs (emit (LogWrite (LogWriter filt) rec) w))"

text \<open>The second loop of \<^verbatim>\<open>intLogJson\<close>, which makes the record inside the loop.\<close>

fun dispatch_json :: "Level \<Rightarrow> LogRecord \<Rightarrow> 'w Filter list \<Rightarrow> 'w world \<Rightarrow> 'w world" where
  "dispatch_json lvl r [] w = w"
| "dispatch_json lvl r (filt # fs) w =
     (if lvl < Filter.Level filt then dispatch_json lvl r fs w
      else
        let (rec, w) = new_record r w
        in dispatch_json lvl r fs (emit (LogWrite (LogWriter filt) rec) w))"

text \<open>
  \<^verbatim>\<open>_, fileName, lineno, ok := runtime.Caller(2); src := ""; if ok { src = fmt.Sprintf("%s:%d", fileName, lineno) }\<close>
\<close>

definition caller_source :: "golib \<Rightarrow> site \<Rightarrow> 'w world \<Rightarrow> string \<times> 'w world" where
  "caller_source L st w =
     (let w = emit Caller_call w
      in case caller st of
           None \<Rightarrow> ([], w)
         | Some (fileName, lineno) \<Rightarrow> sprintf L ''%s:%d'' [VString fileName, VInt lineno] w)"

definition intLogf ::
  "golib \<Rightarrow> site \<Rightarrow> 'w Logger \<Rightarrow> Level \<Rightarrow> string \<Rightarrow> iface list \<Rightarrow> 'w world \<Rightarrow> 'w world" where
  "intLogf L st log lvl format args w =
     (if skip_loop lvl (range_values log (skip_order st)) then w
      else
        let (src, w) = caller_source L st w;
            (msg, w) = (if length args > 0 then sprintf L format args w else (format, w));
            (rec, w) = new_record
               \<lparr>LogRecord.Level = lvl, Created = now st, Source = src, Message = msg,
                Json = False, Fields = []\<rparr> w
        in dispatch lvl rec (range_values log (dispatch_order st)) w)"

definition intLogJson ::
  "golib \<Rightarrow> site \<Rightarrow> 'w Logger \<Rightarrow> Level \<Rightarrow> string \<Rightarrow> Field list \<Rightarrow> 'w world \<Rightarrow> 'w world" where
  "intLogJson L st log lvl message filed w =
     (if skip_loop lvl (range_values log (skip_order st)) then w
      else
        let (src, w) = caller_source L st w
        in dispatch_json lvl
             \<lparr>LogRecord.Level = lvl, Created = now st, Source = src, Message = message,
              Json = True, Fields = filed\<rparr>
             (range_values log (dispatch_order st)) w)"

text \<open>A closure \<^verbatim>\<open>func() string\<close> is the string it returns; its call is an effect.\<close>

definition intLogc ::
  "golib \<Rightarrow> site \<Rightarrow> 'w Logger \<Rightarrow> Level \<Rightarrow> (unit \<Rightarrow> string) \<Rightarrow> 'w world \<Rightarrow> 'w world" where
  "intLogc L st log lvl closure w =
     (if skip_loop lvl (range_values log (skip_order st)) then w
      else
        let (src, w) = caller_source L st w;
            (msg, w) = (closure (), emit Closure_call w);
            (rec, w) = new_record
               \<lparr>LogRecord.Level = lvl, Created = now st, Source = src, Message = msg,
                Json = False, Fields = []\<rparr> w
        in dispatch lvl rec (range_values log (dispatch_order st)) w)"

text \<open>\<^verbatim>\<open>func (log Logger) Log(lvl Level, source, message string)\<close>\<close>

definition Log_manual ::
  "site \<Rightarrow> 'w Logger \<Rightarrow> Level \<Rightarrow> string \<Rightarrow> string \<Rightarrow> 'w world \<Rightarrow> 'w world" where
  "Log_manual st log lvl source message w =
     (if skip_loop lvl (range_values log (skip_order st)) then w
      else
        let (rec, w) = new_record
               \<lparr>LogRecord.Level = lvl, Created = now st, Source = source, Message = message,
                Json = False, Fields = []\<rparr> w
        in dispatch lvl rec (range_values log (dispatch_order st)) w)"

text \<open>The public entries of a logger, each with its arguments.\<close>

datatype entry =
  Logf Level string "iface list"
  | Logc Level "unit \<Rightarrow> string"
  | Log Level string string
  | Finestf string "iface list"
  | Finef string "iface list"
  | Debugf string "iface list"
  | Tracef string "iface list"
  | Infof string "iface list"
  | Warnf string "iface list"
  | Errorf string "iface list"
  | Criticalf string "iface list"
  | Debug string "Field list"
  | Info string "Field list"
  | Warn string "Field list"
  | Error string "Field list"

text \<open>
  \<^verbatim>\<open>Warnf\<close>, \<^verbatim>\<open>Errorf\<close> and \<^verbatim>\<open>Criticalf\<close> call
  \<^verbatim>\<open>log.intLogf(lvl, fmt.Sprintf(arg0, args...))\<close>: the operand of the call is evaluated
  first, and \<^verbatim>\<open>intLogf\<close> gets the text with no operands.
\<close>

fun call :: "golib \<Rightarrow> site \<Rightarrow> 'w Logger \<Rightarrow> entry \<Rightarrow> 'w world \<Rightarrow> 'w world" where
  "call L st log (Logf lvl format args) w = intLogf L st log lvl format args w"
| "call L st log (Logc lvl closure) w = intLogc L st log lvl closure w"
| "call L st log (Log lvl source message) w = Log_manual st log lvl source message w"
| "call L st log (Finestf arg0 args) w = intLogf L st log FINEST arg0 args w"
| "call L st log (Finef arg0 args) w = intLogf L st log FINE arg0 args w"
| "call L st log (Debugf arg0 args) w = intLogf L st log DEBUG arg0 args w"
| "call L st log (Tracef arg0 args) w = intLogf L st log TRACE arg0 args w"
| "call L st log (Infof arg0 args) w = intLogf L st log INFO arg0 args w"
| "call L st log (Warnf arg0 args) w =
     (let (msg, w) = sprintf L arg0 args w in intLogf L st log WARNING msg [] w)"
| "call L st log (Errorf arg0 args) w =
     (let (msg, w) = sprintf L arg0 args w in intLogf L st log ERROR msg [] w)"
| "call L st log (Criticalf arg0 args) w =
     (let (msg, w) = sprintf L arg0 args w in intLogf L st log CRITICAL msg [] w)"
| "call L st log (Debug message field) w = intLogJson L st log DEBUG message field w"
| "call L st log (Info message field) w = intLogJson L st log INFO message field w"
| "call L st log (Warn message field) w = intLogJson L st log WARNING message field w"
| "call L st log (Error message field) w = intLogJson L st log ERROR message field w"

text \<open>The severity a call is made at.\<close>

fun severity :: "entry \<Rightarrow> Level" where
  "severity (Logf lvl _ _) = lvl"
| "severity (Logc lvl _) = lvl"
| "severity (Log lvl _ _) = lvl"
| "severity (Finestf _ _) = FINEST"
| "severity (Finef _ _) = FINE"
| "severity (Debugf _ _) = DEBUG"
| "severity (Tracef _ _) = TRACE"
| "severity (Infof _ _) = INFO"
| "severity (Warnf _ _) = WARNING"
| "severity (Errorf _ _) = ERROR"
| "severity (Criticalf _ _) = CRITICAL"
| "severity (Debug _ _) = DEBUG"
| "severity (Info _ _) = INFO"
| "severity (Warn _ _) = WARNING"
| "severity (Error _ _) = ERROR"

text \<open>What a call added to the effects, and the writers it invoked, in order.\<close>

definition new_effects :: "'w world \<Rightarrow> 'w world \<Rightarrow> 'w effect list" where
  "new_effects w w' = drop (length (effects w)) (effects w')"

fun writes :: "'w effect list \<Rightarrow> ('w \<times> nat) list" where
  "writes [] = []"
| "writes (LogWrite wr a # es) = (wr, a) # writes es"
| "writes (_ # es) = writes es"

section \<open>The properties, as the specification words them\<close>

text \<open>
  The escaping of a string, as the specification describes it: an ASCII byte is kept, or
  escaped when it is a backslash, a double quote or a control byte below \<open>0x20\<close>; a
  well-formed multi-byte UTF-8 sequence is kept; at any other byte the escape of the
  replacement character \<open>U+FFFD\<close> is written and the scan goes on at the next byte.
  Well-formed sequences are those of the Unicode Standard (Table 3-7): no overlong form, no
  surrogate, nothing above \<open>U+10FFFF\<close>.
\<close>

definition byte_in :: "nat \<Rightarrow> nat \<Rightarrow> char \<Rightarrow> bool" where
  "byte_in l h c = (l \<le> of_char c \<and> of_char c \<le> h)"

fun wellformed_multibyte :: "string \<Rightarrow> bool" where
  "wellformed_multibyte [a, b] = (byte_in 0xC2 0xDF a \<and> byte_in 0x80 0xBF b)"
| "wellformed_multibyte [a, b, c] =
     ((byte_in 0xE0 0xE0 a \<and> byte_in 0xA0 0xBF b \<and> byte_in 0x80 0xBF c)
      \<or> (byte_in 0xE1 0xEC a \<and> byte_in 0x80 0xBF b \<and> byte_in 0x80 0xBF c)
      \<or> (byte_in 0xED 0xED a \<and> byte_in 0x80 0x9F b \<and> byte_in 0x80 0xBF c)
      \<or> (byte_in 0xEE 0xEF a \<and> byte_in 0x80 0xBF b \<and> byte_in 0x80 0xBF c))"
| "wellformed_multibyte [a, b, c, d] =
     ((byte_in 0xF0 0xF0 a \<and> byte_in 0x90 0xBF b \<and> byte_in 0x80 0xBF c \<and> byte_in 0x80 0xBF d)
      \<or> (byte_in 0xF1 0xF3 a \<and> byte_in 0x80 0xBF b \<and> byte_in 0x80 0xBF c \<and> byte_in 0x80 0xBF d)
      \<or> (byte_in 0xF4 0xF4 a \<and> byte_in 0x80 0x8F b \<and> byte_in 0x80 0xBF c \<and> byte_in 0x80 0xBF d))"
| "wellformed_multibyte _ = False"

text \<open>The size of the well-formed multi-byte sequence a string starts with, 1 when there is none.\<close>

definition decode_size :: "string \<Rightarrow> nat" where
  "decode_size s =
     (if wellformed_multibyte (take 2 s) then 2
      else if wellformed_multibyte (take 3 s) then 3
      else if wellformed_multibyte (take 4 s) then 4
      else 1)"

definition escape_ascii :: "char \<Rightarrow> string" where
  "escape_ascii b =
     (if b = CHR 0x5C then [CHR 0x5C, CHR 0x5C]
      else if b = CHR 0x22 then [CHR 0x5C, CHR 0x22]
      else if b = CHR 0x0A then [CHR 0x5C, CHR ''n'']
      else if b = CHR 0x0D then [CHR 0x5C, CHR ''r'']
      else if b = CHR 0x09 then [CHR 0x5C, CHR ''t'']
      else if (of_char b :: nat) < 0x20
        then CHR 0x5C # ''u00'' @ [Hex ! (of_char b div 16), Hex ! (of_char b mod 16)]
      else [b])"

function escape_spec :: "string \<Rightarrow> string" where
  "escape_spec s =
     (if s = [] then []
      else if (of_char (hd s) :: nat) < 0x80 then escape_ascii (hd s) @ escape_spec (tl s)
      else if wellformed_multibyte (take 2 s) then take 2 s @ escape_spec (drop 2 s)
      else if wellformed_multibyte (take 3 s) then take 3 s @ escape_spec (drop 3 s)
      else if wellformed_multibyte (take 4 s) then take 4 s @ escape_spec (drop 4 s)
      else CHR 0x5C # ''ufffd'' @ escape_spec (tl s))"
  by pat_completeness auto
termination
  by (relation "measure length") (auto simp: neq_Nil_conv)

declare escape_spec.simps [simp del]

text \<open>
  JSON mode, as the specification describes it: after the four leading keys, one
  \<open>,"key": value\<close> pair for every field whose kind is not the unknown one, in sequence
  order.  A value is the decimal number of an integer kind, read from the stored integer at
  the kind's width and signedness (an unsigned 8-bit kind is a number from 0 to 255),
  \<open>true\<close> or \<open>false\<close>, the number of a float kind, the escaped text between double quotes,
  or the text of a fallback value; a boolean or float kind whose stored value has another
  dynamic type has none.  The message and the call-site text are string values and are
  escaped as every string value is.
\<close>

definition json_value :: "golib \<Rightarrow> Field \<Rightarrow> string option" where
  \<open>json_value L f =
     (case Type f of
        UnknownType \<Rightarrow> None
      | BoolType \<Rightarrow> (case Interface f of VBool b \<Rightarrow> Some (FormatBool b) | _ \<Rightarrow> None)
      | IntType \<Rightarrow> Some (FormatInt (sint (Integer f)))
      | Int32Type \<Rightarrow> Some (FormatInt (sint (ucast (Integer f) :: 32 word)))
      | Uint32Type \<Rightarrow> Some (FormatUint (unat (ucast (Integer f) :: 32 word)))
      | Int64Type \<Rightarrow> Some (FormatInt (sint (Integer f)))
      | Uint64Type \<Rightarrow> Some (FormatUint (unat (Integer f)))
      | Int8Type \<Rightarrow> Some (FormatInt (sint (ucast (Integer f) :: 8 word)))
      | Uint8Type \<Rightarrow> Some (FormatUint (unat (ucast (Integer f) :: 8 word)))
      | Float64Type \<Rightarrow> (case Interface f of VFloat64 v \<Rightarrow> Some (AppendFloat64 L v) | _ \<Rightarrow> None)
      | Float32Type \<Rightarrow> (case Interface f of VFloat32 v \<Rightarrow> Some (AppendFloat32 L v) | _ \<Rightarrow> None)
      | StringType \<Rightarrow> Some (''"'' @ escape_spec (String f) @ ''"'')
      | InterfaceType \<Rightarrow> Some (any_json L (Interface f)))\<close>

text \<open>
  A field can be rendered in JSON mode when it is of the unknown kind (it is left out) or
  has a value: the stored value of a boolean or float kind is of that dynamic type.  The
  add operation of the unsigned 8-bit kind writes the value of such a field when the value
  is below 128.
\<close>

definition renderable :: "golib \<Rightarrow> Field \<Rightarrow> bool" where
  "renderable L f = (Type f = UnknownType \<or> json_value L f \<noteq> None)"

definition below_128 :: "Field \<Rightarrow> bool" where
  "below_128 f = (Type f \<noteq> Uint8Type \<or> (ucast (Integer f) :: 8 word) < 128)"

definition json_pair :: "golib \<Rightarrow> Field \<Rightarrow> string" where
  \<open>json_pair L f = '',"'' @ escape_spec (Key f) @ ''": '' @ the (json_value L f)\<close>

definition known :: "Field \<Rightarrow> bool" where
  "known f = (Type f \<noteq> UnknownType)"

definition json_line :: "golib \<Rightarrow> string \<Rightarrow> LogRecord \<Rightarrow> string" where
  \<open>json_line L code r =
     ''{"time":'' @ fmt_time (Created r) @ '',"message":"'' @ escape_spec (Message r)
       @ ''","level":"'' @ code @ ''","file":"'' @ escape_spec (Source r) @ ''"''
       @ concat (map (json_pair L) (filter known (Fields r))) @ ''}'' @ [CHR 0x0A]\<close>

text \<open>
  Text mode, as the specification describes it: the value of a field is the decimal number
  of an integer kind, the text of the text kind, and a generic rendering of any other kind
  (\<open>%t\<close> for the boolean kind, \<open>%v\<close> for the rest); the line is the message followed by
  \<open> key:value\<close> for every field.
\<close>

definition text_value :: "golib \<Rightarrow> Field \<Rightarrow> string" where
  "text_value L f =
     (if Type f \<in> {Int32Type, Uint32Type, Int8Type, Uint8Type, Int64Type, Uint64Type, IntType}
        then FormatInt (sint (Integer f))
      else if Type f = StringType then String f
      else if Type f = BoolType then printArg L (CHR ''t'') (Interface f)
      else fmt_v L (Interface f))"

text \<open>The directive and the operand the loop of \<^verbatim>\<open>EncodeString\<close> adds for a field.\<close>

definition field_verb :: "Field \<Rightarrow> char" where
  "field_verb f =
     (if Type f \<in> {Int32Type, Uint32Type, Int8Type, Uint8Type, Int64Type, Uint64Type, IntType}
        then CHR ''d''
      else if Type f = StringType then CHR ''s''
      else if Type f = BoolType then CHR ''t''
      else CHR ''v'')"

definition field_arg :: "Field \<Rightarrow> iface" where
  "field_arg f =
     (if Type f \<in> {Int32Type, Uint32Type, Int8Type, Uint8Type, Int64Type, Uint64Type, IntType}
        then VInt64 (Integer f)
      else if Type f = StringType then VString (String f)
      else Interface f)"

definition field_format :: "Field \<Rightarrow> string" where
  "field_format f = Key f @ '':'' @ [CHR ''%'', field_verb f] @ '' ''"

text \<open>
  The same for the earlier copy: the value of a field is the decimal number of the 32-bit
  integer kind, the text of the text kind and the generic rendering \<open>%v\<close> of any other
  kind.
\<close>

definition text_value_3kind :: "golib \<Rightarrow> Field \<Rightarrow> string" where
  "text_value_3kind L f =
     (if Type f = Int32Type then FormatInt (sint (Integer f))
      else if Type f = StringType then String f
      else fmt_v L (Interface f))"

definition field_verb_3kind :: "Field \<Rightarrow> char" where
  "field_verb_3kind f =
     (if Type f = Int32Type then CHR ''d'' else if Type f = StringType then CHR ''s'' else CHR ''v'')"

definition field_arg_3kind :: "Field \<Rightarrow> iface" where
  "field_arg_3kind f =
     (if Type f = Int32Type then VInt64 (Integer f)
      else if Type f = StringType then VString (String f)
      else Interface f)"

definition field_format_3kind :: "Field \<Rightarrow> string" where
  "field_format_3kind f = Key f @ '':'' @ [CHR ''%'', field_verb_3kind f] @ '' ''"

text \<open>
  The line of the claim, \<open><message> <key1>:<value1> <key2>:<value2> ...\<close>, with the values of
  either copy.
\<close>

definition text_line :: "golib \<Rightarrow> LogRecord \<Rightarrow> string" where
  "text_line L r =
     Message r @ concat (map (\<lambda>f. '' '' @ Key f @ '':'' @ text_value L f) (Fields r))"

definition text_line_3kind :: "golib \<Rightarrow> LogRecord \<Rightarrow> string" where
  "text_line_3kind L r =
     Message r @ concat (map (\<lambda>f. '' '' @ Key f @ '':'' @ text_value_3kind L f) (Fields r))"

text \<open>The integer a dynamically typed value stands for, when it is of a supported integer type.\<close>

fun int_value :: "iface \<Rightarrow> int option" where
  "int_value (VInt v) = Some (sint v)"
| "int_value (VInt8 v) = Some (sint v)"
| "int_value (VInt32 v) = Some (sint v)"
| "int_value (VInt64 v) = Some (sint v)"
| "int_value (VUint8 v) = Some (uint v)"
| "int_value (VUint32 v) = Some (uint v)"
| "int_value (VUint64 v) = Some (uint v)"
| "int_value _ = None"

text \<open>The number a string of decimal digits denotes.\<close>

definition decimal_value :: "string \<Rightarrow> nat" where
  "decimal_value s = foldl (\<lambda>a c. 10 * a + (of_char c - 48)) 0 s"

text \<open>A binding admits a severity when the severity is at least its threshold.\<close>

definition admits :: "Level \<Rightarrow> 'w Filter \<Rightarrow> bool" where
  "admits lvl filt = (lvl \<ge> Filter.Level filt)"

definition admitting :: "'w Logger \<Rightarrow> Level \<Rightarrow> string set" where
  "admitting log lvl = {name \<in> dom log. admits lvl (the (log name))}"

text \<open>Both loops of a call range over the logger's map.\<close>

definition site_ok :: "'w Logger \<Rightarrow> site \<Rightarrow> bool" where
  "site_ok log st = (range_order log (skip_order st) \<and> range_order log (dispatch_order st))"

text \<open>The entries that format their operands before the call of \<^verbatim>\<open>intLogf\<close>.\<close>

fun eager_format :: "entry \<Rightarrow> (string \<times> iface list) option" where
  "eager_format (Warnf arg0 args) = Some (arg0, args)"
| "eager_format (Errorf arg0 args) = Some (arg0, args)"
| "eager_format (Criticalf arg0 args) = Some (arg0, args)"
| "eager_format _ = None"

text \<open>The structured entries make a record for every admitting binding.\<close>

fun structured :: "entry \<Rightarrow> bool" where
  "structured (Debug _ _) = True"
| "structured (Info _ _) = True"
| "structured (Warn _ _) = True"
| "structured (Error _ _) = True"
| "structured _ = False"

text \<open>
  The call-site text of a call and what resolving it does, and the record a call builds:
  the severity of the entry, the time of the call, the call-site text (the caller's own text
  for the manual entry), the message, the structured flag and the fields.
\<close>

definition source_text :: "golib \<Rightarrow> site \<Rightarrow> string" where
  "source_text L st =
     (case caller st of
        None \<Rightarrow> []
      | Some (fileName, lineno) \<Rightarrow> Sprintf L ''%s:%d'' [VString fileName, VInt lineno])"

definition caller_effects :: "site \<Rightarrow> 'w effect list" where
  "caller_effects st =
     Caller_call #
       (case caller st of
          None \<Rightarrow> []
        | Some (fileName, lineno) \<Rightarrow> [Sprintf_call ''%s:%d'' [VString fileName, VInt lineno]])"

definition formatted :: "golib \<Rightarrow> string \<Rightarrow> iface list \<Rightarrow> string" where
  "formatted L format args = (if length args > 0 then Sprintf L format args else format)"

fun message_text :: "golib \<Rightarrow> entry \<Rightarrow> string" where
  "message_text L (Logf lvl format args) = formatted L format args"
| "message_text L (Logc lvl closure) = closure ()"
| "message_text L (Log lvl source message) = message"
| "message_text L (Finestf arg0 args) = formatted L arg0 args"
| "message_text L (Finef arg0 args) = formatted L arg0 args"
| "message_text L (Debugf arg0 args) = formatted L arg0 args"
| "message_text L (Tracef arg0 args) = formatted L arg0 args"
| "message_text L (Infof arg0 args) = formatted L arg0 args"
| "message_text L (Warnf arg0 args) = Sprintf L arg0 args"
| "message_text L (Errorf arg0 args) = Sprintf L arg0 args"
| "message_text L (Criticalf arg0 args) = Sprintf L arg0 args"
| "message_text L (Debug message field) = message"
| "message_text L (Info message field) = message"
| "message_text L (Warn message field) = message"
| "message_text L (Error message field) = message"

fun entry_fields :: "entry \<Rightarrow> Field list" where
  "entry_fields (Debug message field) = field"
| "entry_fields (Info message field) = field"
| "entry_fields (Warn message field) = field"
| "entry_fields (Error message field) = field"
| "entry_fields _ = []"

fun entry_source :: "golib \<Rightarrow> site \<Rightarrow> entry \<Rightarrow> string" where
  "entry_source L st (Log lvl source message) = source"
| "entry_source L st _ = source_text L st"

definition built_record :: "golib \<Rightarrow> site \<Rightarrow> entry \<Rightarrow> LogRecord" where
  "built_record L st e =
     \<lparr>LogRecord.Level = severity e, Created = now st, Source = entry_source L st e,
      Message = message_text L e, Json = structured e, Fields = entry_fields e\<rparr>"

text \<open>The bindings that admit a severity, in the order of the dispatch loop.\<close>

definition admitted :: "'w Logger \<Rightarrow> site \<Rightarrow> Level \<Rightarrow> 'w Filter list" where
  "admitted log st lvl = filter (admits lvl) (range_values log (dispatch_order st))"

section \<open>Concrete inputs for the examples\<close>

definition time0 :: Time where
  "time0 = \<lparr>Year = 2026, Month = 11, Day = 1, Hour = 9, Minute = 30, Second = 5,
            Nanosecond = 123456789\<rparr>"

definition world0 :: "nat world" where
  "world0 = \<lparr>heap = [], effects = []\<rparr>"

text \<open>A logger with a binding at warning (writer 10) and a binding at error (writer 20).\<close>

definition logger0 :: "nat Logger" where
  "logger0 = AddFilter ''err'' ERROR 20 (AddFilter ''warn'' WARNING 10 Map.empty)"

definition site0 :: site where
  "site0 = \<lparr>skip_order = [''err'', ''warn''], dispatch_order = [''warn'', ''err''],
            caller = Some (''main.go'', 42), now = time0\<rparr>"

text \<open>An instance of the library parameters; no example reads it.\<close>

definition lib0 :: golib where
  "lib0 = \<lparr>AppendFloat32 = (\<lambda>_. []), AppendFloat64 = (\<lambda>_. []), any_json = (\<lambda>_. []),
            value_v = (\<lambda>_. []), bad_verb = (\<lambda>_ _. []), other_directive = (\<lambda>_ _ _. [])\<rparr>"

section \<open>Theorems\<close>

subsection \<open>Severity\<close>

lemmas Level_defs =
  FINEST_def FINE_def DEBUG_def TRACE_def INFO_def WARNING_def ERROR_def CRITICAL_def

lemma length_levelStrings: "length levelStrings = 8"
  by (simp add: levelStrings_def)

text \<open>
  Claim C7.  The rendering of a severity gives the four-character code at each of the ranks
  0 to 7 and \<open>UNKNOWN\<close> at every rank below 0 or above 8.  At rank 8, which is out of range,
  the guard lets the value through (it compares with \<open>>\<close> where \<open>\<ge>\<close> is needed) and the
  table read panics with an index out of range: the rendering is not total there.
\<close>

theorem Level_String_rank_8_panics:
  "Level_String 8 = Inl IndexOutOfRange
   \<and> map Level_String [FINEST, FINE, DEBUG, TRACE, INFO, WARNING, ERROR, CRITICAL]
       = map Inr [''FNST'', ''FINE'', ''DEBG'', ''TRAC'', ''INFO'', ''WARN'', ''EROR'', ''CRIT'']
   \<and> Level_String (- 1) = Inr ''UNKNOWN''
   \<and> Level_String 9 = Inr ''UNKNOWN''"
  by (simp add: Level_String_def length_levelStrings Level_defs) (simp add: levelStrings_def)

subsection \<open>Escaping\<close>

lemma tryAddRuneSelf_eq:
  "tryAddRuneSelf b enc =
     (if (of_char b :: nat) < 0x80 then (True, enc\<lparr>buf := buf enc @ escape_ascii b\<rparr>) else (False, enc))"
proof -
  have m: "(of_char b :: nat) AND 0xF = of_char b mod 16"
    using take_bit_eq_mask [of 4 "of_char b :: nat"] by (simp add: take_bit_eq_mod mask_eq_exp_minus_1)
  have d: "drop_bit 4 (of_char b :: nat) = of_char b div 16"
    by (simp add: drop_bit_eq_div)
  show ?thesis
    unfolding tryAddRuneSelf_def escape_ascii_def RuneSelf_def m d
    by (auto simp: appendByte_def appendString_def)
qed

lemma first_cases:
  "first b = 0xF0 \<and> b < 0x80 \<or> first b = 0xF1 \<and> (0x80 \<le> b \<and> b < 0xC2 \<or> 0xF5 \<le> b)
   \<or> first b = 0x02 \<and> 0xC2 \<le> b \<and> b \<le> 0xDF
   \<or> first b = 0x13 \<and> b = 0xE0
   \<or> first b = 0x03 \<and> (0xE1 \<le> b \<and> b \<le> 0xEC \<or> 0xEE \<le> b \<and> b \<le> 0xEF)
   \<or> first b = 0x23 \<and> b = 0xED
   \<or> first b = 0x34 \<and> b = 0xF0
   \<or> first b = 0x04 \<and> 0xF1 \<le> b \<and> b \<le> 0xF3
   \<or> first b = 0x44 \<and> b = 0xF4"
  unfolding first_def by (simp; arith)

lemma first_size: "(0x02::nat) AND 7 = 2" "(0x13::nat) AND 7 = 3" "(0x03::nat) AND 7 = 3" "(0x23::nat) AND 7 = 3"
  "(0x34::nat) AND 7 = 4" "(0x04::nat) AND 7 = 4" "(0x44::nat) AND 7 = 4"
  by simp_all
lemma first_accept: "drop_bit 4 (0x02::nat) = 0" "drop_bit 4 (0x13::nat) = 1" "drop_bit 4 (0x03::nat) = 0" "drop_bit 4 (0x23::nat) = 2"
  "drop_bit 4 (0x34::nat) = 3" "drop_bit 4 (0x04::nat) = 0" "drop_bit 4 (0x44::nat) = 4"
  by (simp_all add: drop_bit_eq_div)

lemmas decode_simps = DecodeRuneInString_def decode_size_def Let_def first_size first_accept acceptRanges_def
            locb_def hicb_def byte_in_def

lemma decode_size_1: "(0x80::nat) \<le> of_char a \<Longrightarrow> snd (DecodeRuneInString [a]) = decode_size [a]"
  using first_cases [of "of_char a"]
  by (elim disjE conjE; simp add: decode_simps)

lemma decode_size_2: "(0x80::nat) \<le> of_char a \<Longrightarrow> snd (DecodeRuneInString [a, b]) = decode_size [a, b]"
  using first_cases [of "of_char a"]
  by (elim disjE conjE; simp add: decode_simps; arith?)

lemma decode_size_3: "(0x80::nat) \<le> of_char a \<Longrightarrow> snd (DecodeRuneInString [a, b, c]) = decode_size [a, b, c]"
  using first_cases [of "of_char a"]
  by (elim disjE conjE; simp add: decode_simps; arith?)


lemma decode_size_4: "(0x80::nat) \<le> of_char a \<Longrightarrow>
    snd (DecodeRuneInString (a # b # c # d # r)) = decode_size (a # b # c # d # r)"
  using first_cases [of "of_char a"]
  by (elim disjE conjE; simp add: decode_simps; arith?)

lemma Decode_size:
  assumes "s \<noteq> []" "(0x80::nat) \<le> of_char (hd s)"
  shows "snd (DecodeRuneInString s) = decode_size s"
proof -
  consider a where "s = [a]" | a b where "s = [a, b]" | a b c where "s = [a, b, c]"
    | a b c d r where "s = a # b # c # d # r"
    using assms(1) by (metis list.exhaust)
  then show ?thesis
    using assms(2) by cases (simp_all only: decode_size_1 decode_size_2 decode_size_3 decode_size_4 list.sel)
qed


lemma Decode_error:
  assumes "DecodeRuneInString s = (r, n)" "n = 1" "s \<noteq> []" "(0x80::nat) \<le> of_char (hd s)"
  shows "r = RuneError"
proof -
  have "first (of_char (hd s)) \<noteq> 0xF0"
    using assms(4) first_cases [of "of_char (hd s)"] by auto
  moreover have "hd s = s ! 0" using assms(3) by (simp add: hd_conv_nth)
  ultimately show ?thesis
    using assms(1,2,3) by (auto simp: DecodeRuneInString_def Let_def split: if_splits)
qed

lemma escape_spec_Nil [simp]: "escape_spec [] = []"
  by (simp add: escape_spec.simps [of "[]"])

lemma safeAddString_from_spec:
  "safeAddString_from i s enc = enc\<lparr>buf := buf enc @ escape_spec (drop i s)\<rparr>"
proof (induction i s enc rule: safeAddString_from.induct)
  case (1 i s enc)
  show ?case
  proof (cases "i < length s")
    case False
    then show ?thesis by (simp add: safeAddString_from.simps [of i])
  next
    case True
    define t where "t = drop i s"
    have t: "t \<noteq> []" "hd t = s ! i" "tl t = drop (i + 1) s"
      using True by (simp_all add: t_def hd_drop_conv_nth drop_Suc tl_drop)
    show ?thesis
    proof (cases "(of_char (s ! i) :: nat) < 0x80")
      case ascii: True
      define e1 where "e1 = enc\<lparr>buf := buf enc @ escape_ascii (s ! i)\<rparr>"
      have self: "tryAddRuneSelf (s ! i) enc = (True, e1)"
        using ascii by (simp add: tryAddRuneSelf_eq e1_def)
      have "safeAddString_from i s enc = safeAddString_from (i + 1) s e1"
        using True self by (simp add: safeAddString_from.simps [of i])
      also have "\<dots> = e1\<lparr>buf := buf e1 @ escape_spec (drop (i + 1) s)\<rparr>"
        using "1.IH"(1) [OF True self [symmetric] refl] .
      also have "escape_spec t = escape_ascii (s ! i) @ escape_spec (drop (i + 1) s)"
        using t ascii by (simp add: escape_spec.simps [of t])
      ultimately show ?thesis by (simp add: t_def e1_def)
    next
      case False
      then have hi: "(0x80::nat) \<le> of_char (hd t)" using t by simp
      have self: "tryAddRuneSelf (s ! i) enc = (False, enc)"
        using False by (simp add: tryAddRuneSelf_eq)
      obtain r n where D: "DecodeRuneInString t = (r, n)" by force
      have D': "(r, n) = DecodeRuneInString (drop i s)" using D by (simp only: t_def)
      define w2 where "w2 = wellformed_multibyte (take 2 t)"
      define w3 where "w3 = wellformed_multibyte (take 3 t)"
      define w4 where "w4 = wellformed_multibyte (take 4 t)"
      have "decode_size t = n" using Decode_size [OF t(1) hi] D by simp
      then have n: "n = (if w2 then 2 else if w3 then 3 else if w4 then 4 else 1)"
        by (simp only: decode_size_def w2_def w3_def w4_def)
      have not_ascii: "\<not> (of_char (hd t) :: nat) < 0x80" using hi by simp
      have spec: "escape_spec t =
          (if w2 then take 2 t @ escape_spec (drop 2 t)
           else if w3 then take 3 t @ escape_spec (drop 3 t)
           else if w4 then take 4 t @ escape_spec (drop 4 t)
           else CHR 0x5C # ''ufffd'' @ escape_spec (tl t))"
        by (simp only: escape_spec.simps [of t] t(1) not_ascii if_False w2_def w3_def w4_def)
      show ?thesis
      proof (cases "n = 1")
        case one: True
        then have r: "r = RuneError" using Decode_error [OF D _ t(1) hi] by simp
        have nwf: "\<not> w2" "\<not> w3" "\<not> w4"
          using n unfolding one by (simp_all split: if_splits)
        define e2 where "e2 = enc\<lparr>buf := buf enc @ CHR 0x5C # ''ufffd''\<rparr>"
        have err: "tryAddRuneError r n enc = (True, e2)"
          using one r by (simp add: tryAddRuneError_def appendString_def e2_def)
        have "safeAddString_from i s enc = safeAddString_from (i + 1) s e2"
          using True self D err by (simp add: safeAddString_from.simps [of i] t_def [symmetric])
        also have "\<dots> = e2\<lparr>buf := buf e2 @ escape_spec (drop (i + 1) s)\<rparr>"
          using "1.IH"(2) [OF True self [symmetric] refl D' err [symmetric] refl] .
        also have "escape_spec t = (CHR 0x5C # ''ufffd'') @ escape_spec (drop (i + 1) s)"
          using t(3) nwf by (simp add: spec)
        ultimately show ?thesis by (simp add: t_def e2_def)
      next
        case many: False
        have esc: "escape_spec t = take n t @ escape_spec (drop n t)"
          using many unfolding n spec by (simp split: if_splits)
        define e3 where "e3 = enc\<lparr>buf := buf enc @ take n t\<rparr>"
        have err: "tryAddRuneError r n enc = (False, enc)"
          using many by (simp add: tryAddRuneError_def)
        have "safeAddString_from i s enc = safeAddString_from (i + n) s e3"
          using True self D err
          by (simp add: safeAddString_from.simps [of i] t_def [symmetric] e3_def)
        also have "\<dots> = e3\<lparr>buf := buf e3 @ escape_spec (drop (i + n) s)\<rparr>"
          using "1.IH"(3) [OF True self [symmetric] refl D' err [symmetric] refl]
          by (simp only: e3_def t_def)
        also have "drop (i + n) s = drop n t" by (simp add: t_def add.commute)
        ultimately show ?thesis using esc by (simp add: t_def e3_def)
      qed
    qed
  qed
qed

lemma safeAddString_spec: "safeAddString s enc = enc\<lparr>buf := buf enc @ escape_spec s\<rparr>"
  by (simp add: safeAddString_def safeAddString_from_spec)

text \<open>
  Claim C4.  For every input string and every encoder, the safe string-escaping routine
  appends to the buffer exactly the escaping the specification describes, and changes
  nothing else of the encoder: an ASCII byte from \<open>0x20\<close> on other than backslash and
  double quote unchanged; backslash, double quote, newline, carriage return and tab as their
  two-character escapes; any other byte below \<open>0x20\<close> as \<open>\u00XX\<close>; a well-formed
  multi-byte UTF-8 sequence unchanged; and the escape \<open>\ufffd\<close> at every byte where the
  decoding fails.
\<close>

theorem safeAddString_escapes:
  "buf (safeAddString s enc) = buf enc @ escape_spec s
   \<and> left (safeAddString s enc) = left enc"
  by (simp add: safeAddString_spec)

theorem safeAddString_escapes_witness:
  \<open>buf (safeAddString [CHR ''a'', CHR 0x22, CHR 0x5C, CHR 0x0A, CHR 0x01, CHR 0xE2, CHR 0x82,
          CHR 0xAC, CHR 0xFF, CHR 0xC3] newJsonEncoder)
     = [CHR ''a'', CHR 0x5C, CHR 0x22, CHR 0x5C, CHR 0x5C, CHR 0x5C, CHR ''n'', CHR 0x5C]
         @ ''u0001'' @ [CHR 0xE2, CHR 0x82, CHR 0xAC, CHR 0x5C] @ ''ufffd'' @ [CHR 0x5C] @ ''ufffd''\<close>
  using safeAddString_escapes
    [of "[CHR ''a'', CHR 0x22, CHR 0x5C, CHR 0x0A, CHR 0x01, CHR 0xE2, CHR 0x82, CHR 0xAC,
          CHR 0xFF, CHR 0xC3]" newJsonEncoder]
  by (simp add: newJsonEncoder_def escape_spec.simps escape_ascii_def byte_in_def Hex_def)

subsection \<open>Fields\<close>

lemma FormatUint_small: "n < 10 \<Longrightarrow> FormatUint n = [digit n]"
  by (simp add: FormatUint.simps [of n])

lemma FormatUint_large: "\<not> n < 10 \<Longrightarrow> FormatUint n = FormatUint (n div 10) @ [digit (n mod 10)]"
  by (simp add: FormatUint.simps [of n])

lemma digit_value: "n < 10 \<Longrightarrow> of_char (digit n) - 48 = n"
  unfolding digit_def by (simp add: nth_Cons' split: if_splits; arith)

lemma decimal_value_snoc: "decimal_value (s @ [c]) = 10 * decimal_value s + (of_char c - 48)"
  by (simp add: decimal_value_def)

lemma decimal_value_FormatUint: "decimal_value (FormatUint n) = n"
proof (induction n rule: FormatUint.induct)
  case (1 n)
  show ?case
  proof (cases "n < 10")
    case True
    then show ?thesis by (simp add: FormatUint_small decimal_value_def digit_value)
  next
    case False
    then show ?thesis
      using "1.IH" by (simp add: FormatUint_large decimal_value_snoc digit_value)
  qed
qed

lemma add_key_spec:
  "add_key key enc =
     enc\<lparr>buf := buf enc @ (if left enc then [CHR 0x22] else [CHR '','', CHR 0x22])
              @ escape_spec key @ [CHR 0x22, CHR '':'', CHR '' ''],
         left := False\<rparr>"
  by (simp add: add_key_def AppendLeft_def appendString_def safeAddString_spec)

text \<open>
  Claim C10.  For every 64-bit unsigned value \<open>v\<close>, also above \<open>2^63 - 1\<close>, the field the
  \<open>Uint64\<close> constructor builds is rendered in JSON mode as the key followed by the decimal
  digits of \<open>v\<close> itself: the signed slot keeps all 64 bits and the renderer reads them back
  as unsigned.
\<close>

theorem Uint64_renders_original_value:
  "AddTo L (Uint64 key v) enc =
     Inr (enc\<lparr>buf := buf enc @ (if left enc then [CHR 0x22] else [CHR '','', CHR 0x22])
                  @ escape_spec key @ [CHR 0x22, CHR '':'', CHR '' ''] @ FormatUint (unat v),
              left := False\<rparr>)
   \<and> decimal_value (FormatUint (unat v)) = unat v"
  by (simp add: AddTo_def Uint64_def zeroField_def AddUint64_def add_key_spec Let_def
        decimal_value_FormatUint)


theorem Uint64_renders_original_value_witness:
  \<open>AddTo lib0 (Uint64 ''n'' 18446744073709551615) newJsonEncoder
     = Inr \<lparr>buf = '',"n": 18446744073709551615'', left = False\<rparr>\<close>
proof -
  have "FormatUint 18446744073709551615 = ''18446744073709551615''"
    by (simp add: FormatUint.simps digit_def)
  then show ?thesis
    using Uint64_renders_original_value [of lib0 "''n''" 18446744073709551615 newJsonEncoder]
    by (simp add: newJsonEncoder_def escape_spec.simps escape_ascii_def)
qed

text \<open>
  Claim C8, amended.  For every key and every dynamically typed value the any-to-field
  constructor keeps the key and produces: for a value of a supported integer type a field of
  the generic integer kind whose signed 64-bit slot holds the value when the value is at
  most \<open>2^63 - 1\<close> (every \<open>int\<close>, \<open>int8\<close>, \<open>uint8\<close>, \<open>int32\<close>, \<open>uint32\<close>, \<open>int64\<close>, and
  the lower half of \<open>uint64\<close>) and the value minus \<open>2^64\<close> for a \<open>uint64\<close> above that; for
  a text a text-kind field holding it; for a value of any other dynamic type (booleans and
  floating-point numbers among them) a fallback-kind field holding the value.
\<close>

theorem Any_classifies:
  "Key (Any key v) = key
   \<and> (case int_value v of
        Some n \<Rightarrow>
          Type (Any key v) = IntType
          \<and> sint (Integer (Any key v)) = (if n < 2 ^ 63 then n else n - 2 ^ 64)
      | None \<Rightarrow>
          (case v of
             VString s \<Rightarrow> Type (Any key v) = StringType \<and> String (Any key v) = s
           | _ \<Rightarrow> Type (Any key v) = InterfaceType \<and> Interface (Any key v) = v))"
proof -
  have u64: "sint w = (if uint w < 9223372036854775808 then uint w else uint w - 18446744073709551616)"
    for w :: "64 word"
  proof -
    have a: "0 \<le> uint w" "uint w < 18446744073709551616"
      using uint_lt2p [of w] by simp_all
    have b: "sint w = (uint w + 9223372036854775808) mod 18446744073709551616 - 9223372036854775808"
      using sint_uint [of w] by (simp add: signed_take_bit_eq_take_bit_shift take_bit_eq_mod)
    show ?thesis
    proof (cases "uint w < 9223372036854775808")
      case True
      then show ?thesis using a b by simp
    next
      case False
      then have "(uint w + 9223372036854775808) mod 18446744073709551616
                   = uint w + 9223372036854775808 - 18446744073709551616"
        using a by (simp add: mod_pos_geq)
      then show ?thesis using False b by simp
    qed
  qed
  have s64: "sint w < 9223372036854775808" for w :: "64 word"
    using sint_lt [of w] by simp
  have s8: "sint w < 9223372036854775808" for w :: "8 word"
    using sint_lt [of w] by simp
  have s32: "sint w < 9223372036854775808" for w :: "32 word"
    using sint_lt [of w] by simp
  have u8: "uint w < 9223372036854775808" for w :: "8 word"
    using uint_lt2p [of w] by simp
  have u32: "uint w < 9223372036854775808" for w :: "32 word"
    using uint_lt2p [of w] by simp
  have c8: "sint (ucast w :: 64 word) = uint w" for w :: "8 word"
    using u64 [of "ucast w"] u8 [of w] by (simp add: uint_up_ucast is_up)
  have c32: "sint (ucast w :: 64 word) = uint w" for w :: "32 word"
    using u64 [of "ucast w"] u32 [of w] by (simp add: uint_up_ucast is_up)
  show ?thesis
  proof (cases v)
    case (VUint64 w)
    then show ?thesis using u64 [of w] by (simp add: zeroField_def)
  qed (simp_all add: zeroField_def s64 s8 s32 u8 u32 c8 c32 sint_up_scast is_up)
qed

theorem Any_classifies_witness:
  "Key (Any ''n'' (VUint64 18446744073709551615)) = ''n''
   \<and> Type (Any ''n'' (VUint64 18446744073709551615)) = IntType
   \<and> sint (Integer (Any ''n'' (VUint64 18446744073709551615))) = - 1
   \<and> Type (Any ''b'' (VBool True)) = InterfaceType
   \<and> Interface (Any ''b'' (VBool True)) = VBool True"
  using Any_classifies [of "''n''" "VUint64 18446744073709551615"]
    Any_classifies [of "''b''" "VBool True"]
  by simp

text \<open>
  Claim C8 as stated fails at the \<open>uint64\<close> value \<open>2^64 - 1\<close>: it is a supported integer
  value, and the integer the field holds is \<open>-1\<close>.
\<close>

theorem Any_uint64_counterexample:
  "int_value (VUint64 18446744073709551615) = Some 18446744073709551615
   \<and> Type (Any ''n'' (VUint64 18446744073709551615)) = IntType
   \<and> sint (Integer (Any ''n'' (VUint64 18446744073709551615))) \<noteq> 18446744073709551615"
  by (simp add: zeroField_def)

subsection \<open>The loops of a dispatch\<close>

lemma effects_emit [simp]: "effects (emit e w) = effects w @ [e]"
  by (simp add: emit_def)

lemma heap_emit [simp]: "heap (emit e w) = heap w"
  by (simp add: emit_def)

lemma writes_append [simp]: "writes (es @ fs) = writes es @ writes fs"
  by (induction es rule: writes.induct) simp_all

lemma new_effects_append: "effects w' = effects w @ es \<Longrightarrow> new_effects w w' = es"
  by (simp add: new_effects_def)

lemma skip_loop_iff: "skip_loop lvl fs = (filter (admits lvl) fs = [])"
  by (induction fs) (simp_all add: admits_def)

lemma dispatch_eq:
  "dispatch lvl rec fs w =
     w\<lparr>effects := effects w @ map (\<lambda>filt. LogWrite (LogWriter filt) rec) (filter (admits lvl) fs)\<rparr>"
  by (induction fs arbitrary: w) (simp_all add: admits_def not_less emit_def)

lemma dispatch_json_eq:
  "dispatch_json lvl r fs w =
     w\<lparr>heap := heap w @ replicate (length (filter (admits lvl) fs)) r,
       effects := effects w
         @ map (\<lambda>(filt, a). LogWrite (LogWriter filt) a)
             (zip (filter (admits lvl) fs)
                [length (heap w) ..< length (heap w) + length (filter (admits lvl) fs)])\<rparr>"
proof (induction fs arbitrary: w)
  case Nil
  then show ?case by simp
next
  case (Cons filt fs)
  show ?case
  proof (cases "admits lvl filt")
    case False
    then have "lvl < Filter.Level filt" by (simp add: admits_def)
    then show ?thesis using False Cons.IH [of w] by simp
  next
    case True
    define k where "k = length (filter (admits lvl) fs)"
    have upt: "[length (heap w) ..< Suc (length (heap w) + k)]
                 = length (heap w) # [Suc (length (heap w)) ..< Suc (length (heap w) + k)]"
      by (simp add: upt_conv_Cons)
    have nl: "\<not> lvl < Filter.Level filt"
      using True by (simp add: admits_def)
    show ?thesis
      using Cons.IH [of "emit (LogWrite (LogWriter filt) (length (heap w))) (w\<lparr>heap := heap w @ [r]\<rparr>)"]
      by (simp add: True nl new_record_def emit_def replicate_append_same upt
            k_def [symmetric] del: upt_Suc)
  qed
qed

lemma range_values_eq:
  "set ks \<subseteq> dom log \<Longrightarrow> range_values log ks = map (\<lambda>k. the (log k)) ks"
  by (induction ks) auto

lemma range_order_values:
  "range_order log ks \<Longrightarrow> range_values log ks = map (\<lambda>k. the (log k)) ks"
  by (simp add: range_order_def range_values_eq)

lemma admitted_filter:
  assumes "range_order log ks"
  shows "filter (admits lvl) (range_values log ks)
           = map (\<lambda>k. the (log k)) (filter (\<lambda>k. k \<in> admitting log lvl) ks)"
proof -
  have "filter (admits lvl) (map (\<lambda>k. the (log k)) ks)
          = map (\<lambda>k. the (log k)) (filter (\<lambda>k. admits lvl (the (log k))) ks)"
    by (simp add: filter_map comp_def)
  moreover have "filter (\<lambda>k. admits lvl (the (log k))) ks = filter (\<lambda>k. k \<in> admitting log lvl) ks"
    using assms by (intro filter_cong) (auto simp: admitting_def range_order_def)
  ultimately show ?thesis using assms by (simp add: range_order_values)
qed

lemma admitted_empty:
  assumes "range_order log ks"
  shows "(filter (admits lvl) (range_values log ks) = []) = (admitting log lvl = {})"
proof -
  have "admitting log lvl \<subseteq> set ks"
    using assms by (auto simp: admitting_def range_order_def)
  then show ?thesis
    unfolding admitted_filter [OF assms] by (auto simp: filter_empty_conv)
qed


lemma skip_iff:
  assumes "site_ok log st"
  shows "skip_loop lvl (range_values log (skip_order st)) = (admitting log lvl = {})"
    and "(admitted log st lvl = []) = (admitting log lvl = {})"
  using assms admitted_empty [of log "skip_order st" lvl] admitted_empty [of log "dispatch_order st" lvl]
  by (simp_all add: site_ok_def skip_loop_iff admitted_def)

lemma caller_source_eq:
  "caller_source L st w = (source_text L st, w\<lparr>effects := effects w @ caller_effects st\<rparr>)"
  by (simp add: caller_source_def source_text_def caller_effects_def sprintf_def emit_def Let_def
      split: option.split)

lemma intLogf_eq:
  assumes "site_ok log st"
  shows "intLogf L st log lvl format args w =
     (if admitting log lvl = {} then w
      else w\<lparr>heap := heap w @
                 [\<lparr>LogRecord.Level = lvl, Created = now st, Source = source_text L st,
                   Message = formatted L format args, Json = False, Fields = []\<rparr>],
             effects := effects w @ caller_effects st
               @ (if length args > 0 then [Sprintf_call format args] else [])
               @ map (\<lambda>filt. LogWrite (LogWriter filt) (length (heap w))) (admitted log st lvl)\<rparr>)"
  by (simp add: intLogf_def skip_iff(1) [OF assms] caller_source_eq sprintf_def emit_def
      new_record_def dispatch_eq admitted_def formatted_def)

lemma intLogc_eq:
  assumes "site_ok log st"
  shows "intLogc L st log lvl closure w =
     (if admitting log lvl = {} then w
      else w\<lparr>heap := heap w @
                 [\<lparr>LogRecord.Level = lvl, Created = now st, Source = source_text L st,
                   Message = closure (), Json = False, Fields = []\<rparr>],
             effects := effects w @ caller_effects st @ [Closure_call]
               @ map (\<lambda>filt. LogWrite (LogWriter filt) (length (heap w))) (admitted log st lvl)\<rparr>)"
  by (simp add: intLogc_def skip_iff(1) [OF assms] caller_source_eq emit_def
      new_record_def dispatch_eq admitted_def)

lemma Log_manual_eq:
  assumes "site_ok log st"
  shows "Log_manual st log lvl source message w =
     (if admitting log lvl = {} then w
      else w\<lparr>heap := heap w @
                 [\<lparr>LogRecord.Level = lvl, Created = now st, Source = source,
                   Message = message, Json = False, Fields = []\<rparr>],
             effects := effects w
               @ map (\<lambda>filt. LogWrite (LogWriter filt) (length (heap w))) (admitted log st lvl)\<rparr>)"
  by (simp add: Log_manual_def skip_iff(1) [OF assms] new_record_def dispatch_eq admitted_def)

lemma intLogJson_eq:
  assumes "site_ok log st"
  shows "intLogJson L st log lvl message filed w =
     (if admitting log lvl = {} then w
      else w\<lparr>heap := heap w @ replicate (length (admitted log st lvl))
                 \<lparr>LogRecord.Level = lvl, Created = now st, Source = source_text L st,
                   Message = message, Json = True, Fields = filed\<rparr>,
             effects := effects w @ caller_effects st
               @ map (\<lambda>(filt, a). LogWrite (LogWriter filt) a)
                   (zip (admitted log st lvl)
                      [length (heap w) ..< length (heap w) + length (admitted log st lvl)])\<rparr>)"
  by (simp add: intLogJson_def skip_iff(1) [OF assms] caller_source_eq dispatch_json_eq admitted_def)


lemma writes_caller_effects [simp]: "writes (caller_effects st) = []"
  by (simp add: caller_effects_def split: option.split)

lemma writes_shared [simp]:
  "writes (map (\<lambda>filt. LogWrite (LogWriter filt) n) fs) = map (\<lambda>filt. (LogWriter filt, n)) fs"
  by (induction fs) simp_all

lemma writes_fresh [simp]:
  "length ns = length fs \<Longrightarrow>
   writes (map (\<lambda>(filt, a). LogWrite (LogWriter filt) a) (zip fs ns)) = zip (map LogWriter fs) ns"
  by (induction fs ns rule: list_induct2') simp_all

lemma new_effects_eq [simp]:
  "new_effects w (w\<lparr>heap := h, effects := effects w @ es\<rparr>) = es"
  "new_effects w (w\<lparr>effects := effects w @ es\<rparr>) = es"
  "new_effects w w = []"
  by (simp_all add: new_effects_def)

lemma new_effects_emit [simp]:
  "new_effects w ((emit e w)\<lparr>heap := h, effects := effects w @ e # es\<rparr>) = e # es"
  by (simp add: new_effects_def)

lemmas internal_eqs = intLogf_eq intLogc_eq Log_manual_eq intLogJson_eq

lemma call_writes:
  assumes "site_ok log st"
  shows "writes (new_effects w (call L st log e w)) =
     (if structured e
      then zip (map LogWriter (admitted log st (severity e)))
             [length (heap w) ..< length (heap w) + length (admitted log st (severity e))]
      else map (\<lambda>filt. (LogWriter filt, length (heap w))) (admitted log st (severity e)))"
  using skip_iff(2) [OF assms, of "severity e"]
  by (cases e) (simp_all add: internal_eqs [OF assms] sprintf_def emit_def new_effects_def)

lemma call_heap:
  assumes "site_ok log st"
  shows "heap (call L st log e w) = heap w @
     (if structured e then replicate (length (admitted log st (severity e))) (built_record L st e)
      else if admitted log st (severity e) = [] then []
      else [built_record L st e])"
  using skip_iff(2) [OF assms, of "severity e"]
  by (cases e)
    (simp_all add: internal_eqs [OF assms] sprintf_def emit_def built_record_def formatted_def)

lemma call_skipped:
  assumes "site_ok log st" "admitting log (severity e) = {}"
  shows "call L st log e w =
     (case eager_format e of None \<Rightarrow> w | Some (format, args) \<Rightarrow> emit (Sprintf_call format args) w)"
  using assms(2) by (cases e) (simp_all add: internal_eqs [OF assms(1)] sprintf_def)


lemma call_writers:
  assumes "site_ok log st"
  shows "map fst (writes (new_effects w (call L st log e w)))
           = map LogWriter (admitted log st (severity e))"
  by (simp add: call_writes [OF assms] comp_def)

lemma count_admitted:
  assumes "site_ok log st"
  shows "count_list (map LogWriter (admitted log st lvl)) wr
           = card {name \<in> admitting log lvl. LogWriter (the (log name)) = wr}"
proof -
  define ks where "ks = dispatch_order st"
  have ro: "range_order log ks" using assms by (simp add: site_ok_def ks_def)
  then have d: "distinct ks" and dom: "set ks = dom log" by (simp_all add: range_order_def)
  have adm: "admitted log st lvl = map (\<lambda>k. the (log k)) (filter (\<lambda>k. k \<in> admitting log lvl) ks)"
    by (simp add: admitted_def ks_def [symmetric] admitted_filter [OF ro])
  have "count_list (map LogWriter (admitted log st lvl)) wr
          = length (filter (\<lambda>k. k \<in> admitting log lvl \<and> LogWriter (the (log k)) = wr) ks)"
    unfolding adm by (induction ks) simp_all
  also have "\<dots> = card ({k. k \<in> admitting log lvl \<and> LogWriter (the (log k)) = wr} \<inter> set ks)"
    using d by (rule distinct_length_filter)
  also have "{k. k \<in> admitting log lvl \<and> LogWriter (the (log k)) = wr} \<inter> set ks
               = {name \<in> admitting log lvl. LogWriter (the (log name)) = wr}"
    using dom by (auto simp: admitting_def)
  finally show ?thesis .
qed

text \<open>
  Claim C1.  For every logger, every entry of the dispatch and every order in which the two
  loops of the call range over the logger's map: a writer is invoked by the call once for
  every registered binding that holds it and whose threshold the severity reaches, and not
  otherwise; so the writer of a binding with threshold \<open>T\<close> (held by no other binding) is
  invoked, once, if and only if the severity is at least \<open>T\<close>; and a call at a severity below
  every registered threshold invokes no writer.
\<close>

theorem writer_invoked_iff_admitted:
  assumes "site_ok log st"
  shows "(\<forall>wr. count_list (map fst (writes (new_effects w (call L st log e w)))) wr
                = card {name \<in> admitting log (severity e). LogWriter (the (log name)) = wr})
    \<and> (\<forall>name filt.
          log name = Some filt
          \<and> (\<forall>name' filt'. log name' = Some filt' \<and> LogWriter filt' = LogWriter filt \<longrightarrow> name' = name)
          \<longrightarrow> count_list (map fst (writes (new_effects w (call L st log e w)))) (LogWriter filt)
                = (if severity e \<ge> Filter.Level filt then 1 else 0))
    \<and> (admitting log (severity e) = {} \<longrightarrow> writes (new_effects w (call L st log e w)) = [])"
proof (intro conjI allI impI)
  fix wr
  show "count_list (map fst (writes (new_effects w (call L st log e w)))) wr
          = card {name \<in> admitting log (severity e). LogWriter (the (log name)) = wr}"
    by (simp only: call_writers [OF assms] count_admitted [OF assms])
next
  fix name filt
  assume a: "log name = Some filt
    \<and> (\<forall>name' filt'. log name' = Some filt' \<and> LogWriter filt' = LogWriter filt \<longrightarrow> name' = name)"
  have "{n \<in> admitting log (severity e). LogWriter (the (log n)) = LogWriter filt}
          = (if severity e \<ge> Filter.Level filt then {name} else {})"
  proof -
    have here: "log name = Some filt" using a by simp
    have uniq: "n = name" if "log n = Some y" "LogWriter y = LogWriter filt" for n y
      using a that by blast
    have "{n \<in> admitting log (severity e). LogWriter (the (log n)) = LogWriter filt}
            = {n. n = name \<and> admits (severity e) filt}"
    proof (rule set_eqI, rule iffI)
      fix n
      assume "n \<in> {n \<in> admitting log (severity e). LogWriter (the (log n)) = LogWriter filt}"
      then obtain y where y: "log n = Some y" "admits (severity e) y" "LogWriter y = LogWriter filt"
        by (auto simp: admitting_def)
      have "n = name" using uniq [OF y(1) y(3)] .
      with y here show "n \<in> {n. n = name \<and> admits (severity e) filt}" by simp
    next
      fix n
      assume "n \<in> {n. n = name \<and> admits (severity e) filt}"
      with here show "n \<in> {n \<in> admitting log (severity e). LogWriter (the (log n)) = LogWriter filt}"
        by (simp add: admitting_def domI)
    qed
    then show ?thesis by (simp add: admits_def)
  qed
  then show "count_list (map fst (writes (new_effects w (call L st log e w)))) (LogWriter filt)
          = (if severity e \<ge> Filter.Level filt then 1 else 0)"
    by (simp only: call_writers [OF assms] count_admitted [OF assms]) simp
next
  assume "admitting log (severity e) = {}"
  then show "writes (new_effects w (call L st log e w)) = []"
    using skip_iff(2) [OF assms, of "severity e"] by (simp add: call_writes [OF assms])
qed


lemma site0_ok: "site_ok logger0 site0"
  by (auto simp: site_ok_def range_order_def logger0_def site0_def AddFilter_def)

lemma admitting_logger0:
  "admitting logger0 lvl =
     (if lvl \<ge> ERROR then {''warn'', ''err''} else if lvl \<ge> WARNING then {''warn''} else {})"
  by (auto simp: admitting_def admits_def logger0_def AddFilter_def Level_defs split: if_splits)

theorem writer_invoked_iff_admitted_witness:
  "site_ok logger0 site0
   \<and> count_list (map fst (writes (new_effects world0
         (call lib0 site0 logger0 (Logf WARNING ''disk %s'' [VString ''full'']) world0)))) 10 = 1
   \<and> count_list (map fst (writes (new_effects world0
         (call lib0 site0 logger0 (Logf WARNING ''disk %s'' [VString ''full'']) world0)))) 20 = 0
   \<and> writes (new_effects world0
         (call lib0 site0 logger0 (Logf INFO ''disk %s'' [VString ''full'']) world0)) = []"
proof -
  have w: "{name \<in> admitting logger0 WARNING. LogWriter (the (logger0 name)) = 10} = {''warn''}"
    "{name \<in> admitting logger0 WARNING. LogWriter (the (logger0 name)) = 20} = {}"
    "admitting logger0 INFO = {}"
    unfolding admitting_logger0 by (auto simp: Level_defs logger0_def AddFilter_def)
  note at_warning =
    writer_invoked_iff_admitted [OF site0_ok, of world0 lib0 "Logf WARNING ''disk %s'' [VString ''full'']"]
  note at_info =
    writer_invoked_iff_admitted [OF site0_ok, of world0 lib0 "Logf INFO ''disk %s'' [VString ''full'']"]
  show ?thesis
    using at_warning [THEN conjunct1, THEN spec, of 10] at_warning [THEN conjunct1, THEN spec, of 20]
      at_info [THEN conjunct2, THEN conjunct2]
    by (simp add: w site0_ok)
qed

text \<open>
  Claim C2, amended.  For every call at a severity that no registered binding admits, no
  closure is invoked, no call site is resolved, no record is allocated and no writer is
  invoked, for every entry; and no operand is formatted, for every entry but the warning-,
  error- and critical-level format-style entries \<open>Warnf\<close>, \<open>Errorf\<close> and \<open>Criticalf\<close>, which
  format their operands once, before the skip check, and do nothing else.
\<close>

theorem skipped_call_does_nothing_else:
  assumes "site_ok log st" "admitting log (severity e) = {}"
  shows "new_effects w (call L st log e w)
           = (case eager_format e of None \<Rightarrow> [] | Some (format, args) \<Rightarrow> [Sprintf_call format args])
    \<and> Closure_call \<notin> set (new_effects w (call L st log e w))
    \<and> Caller_call \<notin> set (new_effects w (call L st log e w))
    \<and> heap (call L st log e w) = heap w"
  by (cases "eager_format e") (auto simp: call_skipped [OF assms] new_effects_def)

theorem skipped_call_does_nothing_else_witness:
  "site_ok logger0 site0 \<and> admitting logger0 (severity (Logc INFO (\<lambda>_. ''costly''))) = {}
   \<and> new_effects world0 (call lib0 site0 logger0 (Logc INFO (\<lambda>_. ''costly'')) world0) = []
   \<and> heap (call lib0 site0 logger0 (Logc INFO (\<lambda>_. ''costly'')) world0) = []"
proof -
  have a: "admitting logger0 (severity (Logc INFO (\<lambda>_. ''costly''))) = {}"
    by (simp add: admitting_logger0 Level_defs)
  then have a': "admitting logger0 INFO = {}"
    by simp
  show ?thesis
    using skipped_call_does_nothing_else [OF site0_ok a, of world0 lib0]
    by (simp add: site0_ok a' world0_def)
qed

text \<open>
  Claim C2 as stated fails at \<open>Warnf\<close>: the call below is at warning on a logger with
  one binding, at error, so no binding admits it, and the operands are formatted all the
  same.
\<close>

theorem Warnf_formats_when_skipped_counterexample:
  "admitting (AddFilter ''out'' ERROR (0 :: nat) Map.empty) (severity (Warnf ''disk %s'' [VString ''full''])) = {}
   \<and> new_effects world0
        (call lib0 \<lparr>skip_order = [''out''], dispatch_order = [''out''], caller = None, now = time0\<rparr>
           (AddFilter ''out'' ERROR 0 Map.empty) (Warnf ''disk %s'' [VString ''full'']) world0)
       = [Sprintf_call ''disk %s'' [VString ''full'']]"
  by (simp add: admitting_def admits_def AddFilter_def Level_defs intLogf_def sprintf_def
        emit_def new_effects_def world0_def)


lemma written_record:
  assumes "site_ok log st" "(wr, a) \<in> set (writes (new_effects w (call L st log e w)))"
  shows "length (heap w) \<le> a \<and> a < length (heap (call L st log e w))
    \<and> heap (call L st log e w) ! a = built_record L st e"
proof (cases "structured e")
  case True
  define k where "k = length (admitted log st (severity e))"
  have H: "heap (call L st log e w) = heap w @ replicate k (built_record L st e)"
    using True by (simp add: call_heap [OF assms(1)] k_def)
  have "(wr, a) \<in> set (zip (map LogWriter (admitted log st (severity e)))
           [length (heap w) ..< length (heap w) + k])"
    using assms(2) True by (simp add: call_writes [OF assms(1)] k_def)
  then have "a \<in> set [length (heap w) ..< length (heap w) + k]"
    by (rule set_zip_rightD)
  then have "length (heap w) \<le> a" "a < length (heap w) + k" by simp_all
  then show ?thesis by (simp add: H nth_append)
next
  case False
  have "(wr, a) \<in> set (map (\<lambda>filt. (LogWriter filt, length (heap w))) (admitted log st (severity e)))"
    using assms(2) False by (simp add: call_writes [OF assms(1)])
  then have "a = length (heap w)" "admitted log st (severity e) \<noteq> []"
    by auto
  then show ?thesis using False by (simp add: call_heap [OF assms(1)])
qed

lemma written_address:
  assumes "site_ok log st"
  shows "structured e \<Longrightarrow> distinct (map snd (writes (new_effects w (call L st log e w))))"
    and "\<not> structured e \<Longrightarrow> (wr, a) \<in> set (writes (new_effects w (call L st log e w)))
           \<Longrightarrow> a = length (heap w)"
  by (auto simp: call_writes [OF assms])

text \<open>
  Claim C9, amended.  Within one dispatch call every writer invoked receives a record with
  the same severity, creation time, source, message, structured flag and field sequence:
  the record built for the call.  For the format-style, closure-style and manual entries it
  is one record instance, allocated by the call and passed to every admitting binding; for
  the structured entries every admitting binding receives a record instance of its own,
  allocated inside the dispatch loop, all with the same contents.
\<close>

theorem writers_observe_the_built_record:
  assumes "site_ok log st"
  shows "(\<forall>(wr, a) \<in> set (writes (new_effects w (call L st log e w))).
            length (heap w) \<le> a \<and> a < length (heap (call L st log e w))
            \<and> heap (call L st log e w) ! a = built_record L st e)
    \<and> (\<not> structured e \<longrightarrow>
          (\<forall>(wr, a) \<in> set (writes (new_effects w (call L st log e w))). a = length (heap w)))
    \<and> (structured e \<longrightarrow> distinct (map snd (writes (new_effects w (call L st log e w)))))"
  using written_record [OF assms, where w = w and L = L and e = e]
    written_address [OF assms, where w = w and L = L and e = e]
  by auto

theorem writers_observe_the_built_record_witness:
  "site_ok logger0 site0
   \<and> writes (new_effects world0
        (call lib0 site0 logger0 (Errorf ''disk %s'' [VString ''full'']) world0)) = [(10, 0), (20, 0)]
   \<and> heap (call lib0 site0 logger0 (Errorf ''disk %s'' [VString ''full'']) world0)
       = [\<lparr>LogRecord.Level = ERROR, Created = time0, Source = ''main.go:42'',
           Message = ''disk full'', Json = False, Fields = []\<rparr>]"
proof -
  have "FormatUint 42 = ''42''"
    by (simp add: FormatUint.simps digit_def)
  then have run: "writes (new_effects world0
        (call lib0 site0 logger0 (Errorf ''disk %s'' [VString ''full'']) world0)) = [(10, 0), (20, 0)]
   \<and> heap (call lib0 site0 logger0 (Errorf ''disk %s'' [VString ''full'']) world0)
       = [\<lparr>LogRecord.Level = ERROR, Created = time0, Source = ''main.go:42'',
           Message = ''disk full'', Json = False, Fields = []\<rparr>]"
    by (simp add: logger0_def site0_def world0_def AddFilter_def Level_defs intLogf_def
          sprintf_def emit_def new_effects_def caller_source_def new_record_def printArg_def
          FormatInt_def Sprintf_def)
  show ?thesis
    using writers_observe_the_built_record
      [OF site0_ok, of world0 lib0 "Errorf ''disk %s'' [VString ''full'']"] run
    by (simp add: site0_ok)
qed

text \<open>
  Claim C9 as stated fails at a structured entry: on the logger with bindings at warning
  and error, a structured call at error passes the record at address 0 to the first writer
  and another record, at address 1, to the second.
\<close>

theorem structured_call_shares_no_record_counterexample:
  "writes (new_effects world0 (call lib0 site0 logger0 (Error ''disk full'' []) world0))
     = [(10, 0), (20, 1)]"
  by (simp add: logger0_def site0_def world0_def AddFilter_def Level_defs intLogJson_def
        sprintf_def emit_def new_effects_def caller_source_def new_record_def)

subsection \<open>JSON mode\<close>

lemma sint_scast_8_64: "sint (scast (v :: 8 word) :: 64 word) = sint v"
  by (simp add: sint_up_scast is_up)

lemma sint_scast_32_64: "sint (scast (v :: 32 word) :: 64 word) = sint v"
  by (simp add: sint_up_scast is_up)

lemma unat_ucast_32_64: "unat (ucast (v :: 32 word) :: 64 word) = unat v"
proof -
  have "uint (ucast v :: 64 word) = uint v"
    by (simp add: uint_up_ucast is_up)
  then show ?thesis
    by (simp only: unat_eq_nat_uint)
qed

lemma sint_below_128: "(w :: 8 word) < 128 \<Longrightarrow> sint w = uint w"
proof -
  assume "w < 128"
  then have u: "uint w < 128" by (simp add: word_less_def)
  have "(- 128 :: int) \<le> uint w" using uint_ge_0 [of w] by linarith
  then have lo: "- (2 ^ 7) \<le> uint w" by simp
  have hi: "uint w < 2 ^ 7" using u by simp
  have "signed_take_bit 7 (uint w) = uint w"
    using lo hi by (rule signed_take_bit_int_eq_self)
  then show ?thesis using sint_uint [of w] by simp
qed

lemma unat_scast_below_128: "(w :: 8 word) < 128 \<Longrightarrow> unat (scast w :: 64 word) = unat w"
proof -
  assume a: "w < 128"
  have "(scast w :: 64 word) = ucast w"
    by (simp only: scast_eq ucast_eq sint_below_128 [OF a])
  moreover have "uint (ucast w :: 64 word) = uint w"
    by (simp add: uint_up_ucast is_up)
  ultimately have "uint (scast w :: 64 word) = uint w" by simp
  then show ?thesis by (simp only: unat_eq_nat_uint)
qed

text \<open>
  Away from the two defects of JSON mode (a field of the unsigned 8-bit kind from 128 on, and
  a message or call-site text that needs escaping) the code writes the line of the
  specification.
\<close>

lemma AddTo_value:
  assumes "\<not> left enc" "json_value L f = Some v" "below_128 f"
  shows "AddTo L f enc = Inr (enc\<lparr>buf := buf enc @ json_pair L f\<rparr>)"
proof (cases "Type f = Uint8Type")
  case True
  then have "(ucast (Integer f) :: 8 word) < 128"
    using assms(3) by (simp add: below_128_def)
  then show ?thesis
    using True assms(1)
    by (simp add: AddTo_def json_value_def json_pair_def add_key_spec Let_def AddUint8_def
        unat_scast_below_128)
next
  case False
  then show ?thesis
    using assms(1,2)
    by (cases "Type f"; cases "Interface f")
      (simp_all add: AddTo_def json_value_def json_pair_def add_key_spec Let_def
        AddBool_def AddInt_def AddInt32_def AddUint32_def AddInt64_def AddUint64_def AddInt8_def
        AddFloat32_def AddFloat64_def AddString_def AddInterface_def
        AppendLeft_def appendString_def appendByte_def safeAddString_spec
        sint_scast_8_64 sint_scast_32_64 unat_ucast_32_64)
qed

lemma EncodeJson_fields_eq:
  assumes "\<not> left enc" "list_all (renderable L) fs" "list_all below_128 fs"
  shows "EncodeJson_fields L fs enc
           = Inr (enc\<lparr>buf := buf enc @ concat (map (json_pair L) (filter known fs))\<rparr>)"
  using assms
proof (induction fs arbitrary: enc)
  case Nil
  then show ?case by simp
next
  case (Cons f fs)
  show ?case
  proof (cases "Type f = UnknownType")
    case True
    then show ?thesis using Cons by (simp add: known_def)
  next
    case False
    then obtain v where v: "json_value L f = Some v"
      using Cons.prems(2) by (auto simp: renderable_def)
    have b: "below_128 f" using Cons.prems(3) by simp
    have "\<not> left (enc\<lparr>buf := buf enc @ json_pair L f\<rparr>)"
      using Cons.prems(1) by simp
    then show ?thesis
      using False Cons.IH [of "enc\<lparr>buf := buf enc @ json_pair L f\<rparr>"] Cons.prems
      by (simp add: AddTo_value [OF Cons.prems(1) v b] known_def)
  qed
qed

lemma EncodeJson_line:
  assumes "\<not> left enc" "Level_String (LogRecord.Level r) = Inr code"
    "list_all (renderable L) (Fields r)" "list_all below_128 (Fields r)"
    "escape_spec (Message r) = Message r" "escape_spec (Source r) = Source r"
  shows "EncodeJson L r enc
           = Inr (buf enc @ json_line L code r, enc\<lparr>buf := buf enc @ json_line L code r\<rparr>)"
proof -
  define e where \<open>e = enc\<lparr>buf := buf enc @ ''{"time":'' @ fmt_time (Created r) @ '',"message":"''
      @ Message r @ ''","level":"'' @ code @ ''","file":"'' @ Source r @ ''"''\<rparr>\<close>
  have "\<not> left e" using assms(1) by (simp add: e_def)
  from EncodeJson_fields_eq [OF this assms(3,4)] show ?thesis
    by (simp add: EncodeJson_def assms(2,5,6) appendByte_def appendString_def json_line_def e_def)
qed

lemma Level_String_INFO: "Level_String INFO = Inr ''INFO''"
  by (simp add: Level_String_def levelStrings_def INFO_def)

lemma FormatUint_8080: "FormatUint 8080 = ''8080''"
  by (simp add: FormatUint.simps digit_def)

lemma FormatUint_200: "FormatUint 200 = ''200''"
  by (simp add: FormatUint.simps digit_def)

lemma FormatUint_sign_extended_200: "FormatUint 18446744073709551560 = ''18446744073709551560''"
  by (simp add: FormatUint.simps digit_def)

lemma escape_spec_plain:
  "escape_spec ''port'' = ''port''" "escape_spec ''ok'' = ''ok''" "escape_spec ''u'' = ''u''"
  "escape_spec ''start'' = ''start''" "escape_spec ''main.go:42'' = ''main.go:42''"
  by (simp_all add: escape_spec.simps escape_ascii_def)

lemma fmt_time_time0: \<open>fmt_time time0 = ''"2026-11-01 09:30:05.12345"''\<close>
  by (simp add: fmt_time_def time0_def fmt_0d_def quo_def FormatUint.simps digit_def)

text \<open>
  Claim C5.  The scenario of the claim holds: the record of a structured call at info with
  message \<open>start\<close> and the fields \<open>port\<close> (int32 8080) and \<open>ok\<close> (bool true) is rendered by a
  new encoder as
  \<open>{"time":...,"message":"start","level":"INFO","file":...,"port": 8080,"ok": true}\<close> and a
  newline.  The general statement fails at a field of the unsigned 8-bit kind with value
  200: the add operation of that kind takes its value as an \<open>int8\<close> and sign-extends it, so
  the pair written for the field \<open>u\<close> is \<open>"u": 18446744073709551560\<close>, where the line of the
  specification has \<open>"u": 200\<close>.
\<close>

theorem EncodeJson_Uint8_sign_extended:
  \<open>map_sum id fst (EncodeJson L
       \<lparr>LogRecord.Level = INFO, Created = time0, Source = ''main.go:42'', Message = ''start'',
        Json = True, Fields = [Uint8 ''u'' 200]\<rparr> newJsonEncoder)
     = Inr (''{"time":"2026-11-01 09:30:05.12345","message":"start","level":"INFO",''
             @ ''"file":"main.go:42","u": 18446744073709551560}'' @ [CHR 0x0A])
   \<and> json_line L ''INFO''
       \<lparr>LogRecord.Level = INFO, Created = time0, Source = ''main.go:42'', Message = ''start'',
        Json = True, Fields = [Uint8 ''u'' 200]\<rparr>
     = ''{"time":"2026-11-01 09:30:05.12345","message":"start","level":"INFO",''
         @ ''"file":"main.go:42","u": 200}'' @ [CHR 0x0A]
   \<and> map_sum id fst (EncodeJson L
       \<lparr>LogRecord.Level = INFO, Created = time0, Source = ''main.go:42'', Message = ''start'',
        Json = True, Fields = [Int32 ''port'' 8080, Bool ''ok'' True]\<rparr> newJsonEncoder)
     = Inr (''{"time":"2026-11-01 09:30:05.12345","message":"start","level":"INFO",''
             @ ''"file":"main.go:42","port": 8080,"ok": true}'' @ [CHR 0x0A])\<close>
proof (intro conjI)
  let ?bad = "\<lparr>LogRecord.Level = INFO, Created = time0, Source = ''main.go:42'', Message = ''start'',
        Json = True, Fields = [Uint8 ''u'' 200]\<rparr>"
  let ?good = "\<lparr>LogRecord.Level = INFO, Created = time0, Source = ''main.go:42'',
        Message = ''start'', Json = True, Fields = [Int32 ''port'' 8080, Bool ''ok'' True]\<rparr>"
  show \<open>map_sum id fst (EncodeJson L ?bad newJsonEncoder)
     = Inr (''{"time":"2026-11-01 09:30:05.12345","message":"start","level":"INFO",''
             @ ''"file":"main.go:42","u": 18446744073709551560}'' @ [CHR 0x0A])\<close>
    by (simp add: EncodeJson_def Level_String_INFO appendByte_def appendString_def
        newJsonEncoder_def fmt_time_time0 AddTo_def Uint8_def zeroField_def AddUint8_def
        add_key_spec escape_spec_plain Let_def FormatUint_sign_extended_200)
  show \<open>json_line L ''INFO'' ?bad
     = ''{"time":"2026-11-01 09:30:05.12345","message":"start","level":"INFO",''
         @ ''"file":"main.go:42","u": 200}'' @ [CHR 0x0A]\<close>
    by (simp add: json_line_def json_pair_def json_value_def known_def Uint8_def zeroField_def
        escape_spec_plain fmt_time_time0 FormatUint_200)
  have line: \<open>json_line L ''INFO'' ?good
     = ''{"time":"2026-11-01 09:30:05.12345","message":"start","level":"INFO",''
         @ ''"file":"main.go:42","port": 8080,"ok": true}'' @ [CHR 0x0A]\<close>
    by (simp add: json_line_def json_pair_def json_value_def known_def Int32_def Bool_def
        zeroField_def escape_spec_plain fmt_time_time0 FormatInt_def FormatBool_def
        FormatUint_8080)
  have "EncodeJson L ?good newJsonEncoder
          = Inr (buf newJsonEncoder @ json_line L ''INFO'' ?good,
              newJsonEncoder\<lparr>buf := buf newJsonEncoder @ json_line L ''INFO'' ?good\<rparr>)"
    by (rule EncodeJson_line)
      (simp_all add: newJsonEncoder_def Level_String_INFO renderable_def below_128_def
        json_value_def Int32_def Bool_def zeroField_def escape_spec_plain)
  then show \<open>map_sum id fst (EncodeJson L ?good newJsonEncoder)
     = Inr (''{"time":"2026-11-01 09:30:05.12345","message":"start","level":"INFO",''
             @ ''"file":"main.go:42","port": 8080,"ok": true}'' @ [CHR 0x0A])\<close>
    by (simp add: line newJsonEncoder_def)
qed

text \<open>
  Claim C3.  The message of the record below holds two double quotes.  JSON mode copies
  the message between the quotes of the \<open>message\<close> field as it is, so the field's value ends
  at the quote before \<open>hi\<close> and the line is no JSON object: the message does not go through
  the escaping path, which \<open>safeAddString\<close> is and which would have written \<open>say \"hi\"\<close>.
\<close>

theorem EncodeJson_message_not_escaped:
  \<open>map_sum id fst (EncodeJson L
       \<lparr>LogRecord.Level = INFO, Created = time0, Source = ''main.go:42'', Message = ''say "hi"'',
        Json = False, Fields = []\<rparr> newJsonEncoder)
     = Inr (''{"time":"2026-11-01 09:30:05.12345","message":"say "hi"","level":"INFO",''
             @ ''"file":"main.go:42"}'' @ [CHR 0x0A])
   \<and> buf (safeAddString ''say "hi"'' newJsonEncoder)
       = ''say '' @ [CHR 0x5C] @ ''"hi'' @ [CHR 0x5C] @ ''"''\<close>
  by (simp add: EncodeJson_def Level_String_INFO appendByte_def appendString_def newJsonEncoder_def
      fmt_time_time0 safeAddString_spec escape_spec.simps escape_ascii_def)

subsection \<open>Text mode\<close>

lemma EncodeString_fields_eq:
  "EncodeString_fields fs (enc, args) =
     (enc\<lparr>buf := buf enc @ concat (map field_format (filter known fs))\<rparr>,
      args @ map field_arg (filter known fs))"
proof (induction fs arbitrary: enc args)
  case Nil
  then show ?case by simp
next
  case (Cons f fs)
  show ?case
  proof (cases "Type f = UnknownType")
    case True
    then show ?thesis using Cons.IH by (simp add: known_def)
  next
    case False
    then show ?thesis
      by (cases "Type f")
        (simp_all add: Cons.IH known_def field_format_def field_verb_def field_arg_def
          appendString_def appendByte_def Let_def)
  qed
qed

lemma doPrintf_text:
  "CHR ''%'' \<notin> set s \<Longrightarrow> doPrintf L a (s @ t) as = s @ doPrintf L a t as"
  by (induction s) auto

lemma doPrintf_directive:
  "v = CHR ''d'' \<or> v = CHR ''s'' \<or> v = CHR ''t'' \<or> v = CHR ''v'' \<Longrightarrow>
   doPrintf L a (CHR ''%'' # v # t) (x # as) = printArg L v x @ doPrintf L a t as"
  by auto

lemma printArg_field: "printArg L (field_verb f) (field_arg f) = text_value L f"
  by (cases "Type f")
    (simp_all add: printArg_def field_verb_def field_arg_def text_value_def)

lemma field_verb_cases:
  "field_verb f = CHR ''d'' \<or> field_verb f = CHR ''s'' \<or> field_verb f = CHR ''t''
   \<or> field_verb f = CHR ''v''"
  by (simp add: field_verb_def)

lemma doPrintf_fields:
  assumes "\<forall>f \<in> set fs. CHR ''%'' \<notin> set (Key f)"
  shows "doPrintf L a (concat (map field_format fs)) (map field_arg fs)
           = concat (map (\<lambda>f. Key f @ '':'' @ text_value L f @ '' '') fs)"
  using assms
proof (induction fs)
  case Nil
  then show ?case by simp
next
  case (Cons f fs)
  have key: "CHR ''%'' \<notin> set (Key f @ '':'')" using Cons.prems by simp
  have "doPrintf L a (concat (map field_format (f # fs))) (map field_arg (f # fs))
          = doPrintf L a ((Key f @ '':'') @ CHR ''%'' # field_verb f # ('' '' @ concat (map field_format fs)))
              (field_arg f # map field_arg fs)"
    by (simp add: field_format_def)
  also have "\<dots> = (Key f @ '':'') @ printArg L (field_verb f) (field_arg f)
      @ doPrintf L a ('' '' @ concat (map field_format fs)) (map field_arg fs)"
    by (simp only: doPrintf_text [OF key] doPrintf_directive [OF field_verb_cases])
  also have "doPrintf L a ('' '' @ concat (map field_format fs)) (map field_arg fs)
      = '' '' @ doPrintf L a (concat (map field_format fs)) (map field_arg fs)"
    by (rule doPrintf_text) simp
  finally show ?case
    using Cons by (simp add: printArg_field)
qed


lemma EncodeString_3kind_fields_eq:
  "EncodeString_3kind_fields fs (enc, args) =
     (enc\<lparr>buf := buf enc @ concat (map field_format_3kind fs)\<rparr>,
      args @ map field_arg_3kind fs)"
proof (induction fs arbitrary: enc args)
  case Nil
  then show ?case by simp
next
  case (Cons f fs)
  show ?case
    by (simp add: Cons.IH field_format_3kind_def field_verb_3kind_def field_arg_3kind_def
        appendString_def appendByte_def Let_def)
qed

lemma printArg_field_3kind:
  "printArg L (field_verb_3kind f) (field_arg_3kind f) = text_value_3kind L f"
  by (simp add: printArg_def field_verb_3kind_def field_arg_3kind_def text_value_3kind_def)

lemma field_verb_3kind_cases:
  "field_verb_3kind f = CHR ''d'' \<or> field_verb_3kind f = CHR ''s''
   \<or> field_verb_3kind f = CHR ''t'' \<or> field_verb_3kind f = CHR ''v''"
  by (simp add: field_verb_3kind_def)

lemma doPrintf_fields_3kind:
  assumes "\<forall>f \<in> set fs. CHR ''%'' \<notin> set (Key f)"
  shows "doPrintf L a (concat (map field_format_3kind fs)) (map field_arg_3kind fs)
           = concat (map (\<lambda>f. Key f @ '':'' @ text_value_3kind L f @ '' '') fs)"
  using assms
proof (induction fs)
  case Nil
  then show ?case by simp
next
  case (Cons f fs)
  have key: "CHR ''%'' \<notin> set (Key f @ '':'')" using Cons.prems by simp
  have "doPrintf L a (concat (map field_format_3kind (f # fs))) (map field_arg_3kind (f # fs))
          = doPrintf L a ((Key f @ '':'') @ CHR ''%'' # field_verb_3kind f
                # ('' '' @ concat (map field_format_3kind fs)))
              (field_arg_3kind f # map field_arg_3kind fs)"
    by (simp add: field_format_3kind_def)
  also have "\<dots> = (Key f @ '':'') @ printArg L (field_verb_3kind f) (field_arg_3kind f)
      @ doPrintf L a ('' '' @ concat (map field_format_3kind fs)) (map field_arg_3kind fs)"
    by (simp only: doPrintf_text [OF key] doPrintf_directive [OF field_verb_3kind_cases])
  also have "doPrintf L a ('' '' @ concat (map field_format_3kind fs)) (map field_arg_3kind fs)
      = '' '' @ doPrintf L a (concat (map field_format_3kind fs)) (map field_arg_3kind fs)"
    by (rule doPrintf_text) simp
  finally show ?case
    using Cons by (simp add: printArg_field_3kind)
qed

lemma EncodeString_3kind_line:
  assumes "Fields r \<noteq> []" "buf enc = []" "CHR ''%'' \<notin> set (Message r)"
    "\<forall>f \<in> set (Fields r). CHR ''%'' \<notin> set (Key f)"
  shows "fst (EncodeString_3kind L r enc)
           = Message r @ concat (map (\<lambda>f. Key f @ '':'' @ text_value_3kind L f @ '' '') (Fields r))"
proof -
  have "fst (EncodeString_3kind L r enc)
          = doPrintf L (map field_arg_3kind (Fields r))
              (Message r @ concat (map field_format_3kind (Fields r)))
              (map field_arg_3kind (Fields r))"
    using assms(1,2)
    by (simp add: EncodeString_3kind_def EncodeString_3kind_fields_eq appendString_def Let_def
          Sprintf_def)
  also have "\<dots> = Message r
      @ doPrintf L (map field_arg_3kind (Fields r))
          (concat (map field_format_3kind (Fields r))) (map field_arg_3kind (Fields r))"
    by (rule doPrintf_text [OF assms(3)])
  finally show ?thesis
    by (simp add: doPrintf_fields_3kind [OF assms(4)])
qed

lemma EncodeString_line:
  assumes "Fields r \<noteq> []" "buf enc = []" "CHR ''%'' \<notin> set (Message r)"
    "\<forall>f \<in> set (Fields r). CHR ''%'' \<notin> set (Key f)"
  shows "fst (EncodeString L r enc)
           = Message r @ '' ''
               @ concat (map (\<lambda>f. Key f @ '':'' @ text_value L f @ '' '')
                   (filter known (Fields r)))"
proof -
  have keys: "\<forall>f \<in> set (filter known (Fields r)). CHR ''%'' \<notin> set (Key f)"
    using assms(4) by simp
  have msg: "CHR ''%'' \<notin> set (Message r @ '' '')"
    using assms(3) by simp
  have "fst (EncodeString L r enc)
          = doPrintf L (map field_arg (filter known (Fields r)))
              ((Message r @ '' '') @ concat (map field_format (filter known (Fields r))))
              (map field_arg (filter known (Fields r)))"
    using assms(1,2)
    by (simp add: EncodeString_def EncodeString_fields_eq appendString_def appendByte_def Let_def
          Sprintf_def)
  also have "\<dots> = (Message r @ '' '')
      @ doPrintf L (map field_arg (filter known (Fields r)))
          (concat (map field_format (filter known (Fields r))))
          (map field_arg (filter known (Fields r)))"
    by (rule doPrintf_text [OF msg])
  finally show ?thesis
    by (simp add: doPrintf_fields [OF keys])
qed

text \<open>
  Claim C6, amended.  Text mode returns the message as it is when the field sequence is
  empty, in either copy of the encoder.  Otherwise, on an encoder with an empty buffer and
  for a message and keys that hold no \<open>%\<close>, it returns the message followed by the rendered
  fields in sequence order, each as \<open>key:value\<close> and a space after it, so that the line ends
  with a space.  The copy with thirteen kinds puts one space between the message and the
  first field, leaves the fields of the unknown kind out, and renders the integer kinds as
  the decimal number of the stored signed integer, the text kind as it is and every other
  kind generically.  The earlier copy with three kinds renders every field, the 32-bit
  integer kind as a decimal number, the text kind as it is and every other kind
  generically; whether a space stands between the message and its first field is left open
  for it.
\<close>

theorem text_mode_line:
  "(Fields r = [] \<longrightarrow>
      EncodeString L r enc = (Message r, enc) \<and> EncodeString_3kind L r enc = (Message r, enc))
   \<and> (Fields r \<noteq> [] \<and> buf enc = [] \<and> CHR ''%'' \<notin> set (Message r)
        \<and> (\<forall>f \<in> set (Fields r). CHR ''%'' \<notin> set (Key f))
      \<longrightarrow> fst (EncodeString L r enc)
            = Message r @ '' ''
                @ concat (map (\<lambda>f. Key f @ '':'' @ text_value L f @ '' '')
                    (filter known (Fields r)))
          \<and> (list_all kind_3kind (Fields r) \<longrightarrow>
               fst (EncodeString_3kind L r enc)
                 = Message r
                     @ concat (map (\<lambda>f. Key f @ '':'' @ text_value_3kind L f @ '' '') (Fields r))
               \<or> fst (EncodeString_3kind L r enc)
                 = Message r @ '' ''
                     @ concat (map (\<lambda>f. Key f @ '':'' @ text_value_3kind L f @ '' '') (Fields r))))"
proof (intro conjI impI)
  assume "Fields r = []"
  then show "EncodeString L r enc = (Message r, enc)"
    by (simp add: EncodeString_def)
next
  assume "Fields r = []"
  then show "EncodeString_3kind L r enc = (Message r, enc)"
    by (simp add: EncodeString_3kind_def)
next
  assume a: "Fields r \<noteq> [] \<and> buf enc = [] \<and> CHR ''%'' \<notin> set (Message r)
        \<and> (\<forall>f \<in> set (Fields r). CHR ''%'' \<notin> set (Key f))"
  then show "fst (EncodeString L r enc)
            = Message r @ '' ''
                @ concat (map (\<lambda>f. Key f @ '':'' @ text_value L f @ '' '')
                    (filter known (Fields r)))"
    by (intro EncodeString_line) simp_all
next
  assume a: "Fields r \<noteq> [] \<and> buf enc = [] \<and> CHR ''%'' \<notin> set (Message r)
        \<and> (\<forall>f \<in> set (Fields r). CHR ''%'' \<notin> set (Key f))"
  then have "fst (EncodeString_3kind L r enc)
           = Message r @ concat (map (\<lambda>f. Key f @ '':'' @ text_value_3kind L f @ '' '') (Fields r))"
    by (intro EncodeString_3kind_line) simp_all
  then show "fst (EncodeString_3kind L r enc)
                 = Message r
                     @ concat (map (\<lambda>f. Key f @ '':'' @ text_value_3kind L f @ '' '') (Fields r))
               \<or> fst (EncodeString_3kind L r enc)
                 = Message r @ '' ''
                     @ concat (map (\<lambda>f. Key f @ '':'' @ text_value_3kind L f @ '' '') (Fields r))"
    by (rule disjI1)
qed

theorem text_mode_line_witness:
  "fst (EncodeString lib0
     \<lparr>LogRecord.Level = INFO, Created = time0, Source = ''main.go:42'', Message = ''start'',
      Json = True, Fields = [Int32 ''port'' 8080, String_Field ''host'' ''a%b'', Bool ''ok'' True]\<rparr>
     newJsonEncoder)
   = ''start port:8080 host:a%b ok:true ''
   \<and> fst (EncodeString_3kind lib0
     \<lparr>LogRecord.Level = INFO, Created = time0, Source = ''main.go:42'', Message = ''start'',
      Json = True, Fields = [Int32 ''port'' 8080, String_Field ''host'' ''a%b'', Bool ''ok'' True]\<rparr>
     newJsonEncoder)
   \<in> {''startport:8080 host:a%b ok:true '', ''start port:8080 host:a%b ok:true ''}"
proof -
  let ?r = "\<lparr>LogRecord.Level = INFO, Created = time0, Source = ''main.go:42'', Message = ''start'',
      Json = True, Fields = [Int32 ''port'' 8080, String_Field ''host'' ''a%b'', Bool ''ok'' True]\<rparr>"
  have h: "Fields ?r \<noteq> [] \<and> buf newJsonEncoder = [] \<and> CHR ''%'' \<notin> set (Message ?r)
        \<and> (\<forall>f \<in> set (Fields ?r). CHR ''%'' \<notin> set (Key f))"
    by (simp add: newJsonEncoder_def Int32_def String_Field_def Bool_def zeroField_def)
  have k: "list_all kind_3kind (Fields ?r)"
    by (simp add: kind_3kind_def Int32_def String_Field_def Bool_def zeroField_def)
  note both = text_mode_line [of ?r lib0 newJsonEncoder, THEN conjunct2, rule_format, OF h]
  show ?thesis
    using both [THEN conjunct1] both [THEN conjunct2, rule_format, OF k]
    by (simp add: known_def text_value_def text_value_3kind_def Int32_def String_Field_def
        Bool_def zeroField_def printArg_def fmt_v_def FormatInt_def FormatBool_def FormatUint_8080)
qed

text \<open>
  Claim C6 as stated fails at a record with one field, in both copies of the encoder: the
  line the code returns ends with a space, which the form \<open><message> <key>:<value>\<close> does
  not have (and the earlier copy writes the key right after the message).
\<close>

theorem text_mode_trailing_space_counterexample:
  "fst (EncodeString lib0
     \<lparr>LogRecord.Level = INFO, Created = time0, Source = ''main.go:42'', Message = ''start'',
      Json = True, Fields = [Int32 ''port'' 8080]\<rparr> newJsonEncoder)
   = ''start port:8080 ''
   \<and> fst (EncodeString_3kind lib0
     \<lparr>LogRecord.Level = INFO, Created = time0, Source = ''main.go:42'', Message = ''start'',
      Json = True, Fields = [Int32 ''port'' 8080]\<rparr> newJsonEncoder)
   = ''startport:8080 ''
   \<and> text_line lib0
     \<lparr>LogRecord.Level = INFO, Created = time0, Source = ''main.go:42'', Message = ''start'',
      Json = True, Fields = [Int32 ''port'' 8080]\<rparr>
   = ''start port:8080''
   \<and> text_line_3kind lib0
     \<lparr>LogRecord.Level = INFO, Created = time0, Source = ''main.go:42'', Message = ''start'',
      Json = True, Fields = [Int32 ''port'' 8080]\<rparr>
   = ''start port:8080''"
  by (simp add: EncodeString_def EncodeString_3kind_def newJsonEncoder_def appendString_def
      appendByte_def Int32_def zeroField_def printArg_def FormatInt_def FormatUint_8080
      text_line_def text_value_def text_line_3kind_def text_value_3kind_def Sprintf_def)

end
